theory Spec2Isabelle
  imports Complex_Main "HOL-Library.Sublist" "HOL-Library.Multiset"
begin

section \<open>Batch generators over draft and deck tables (mtg/ml/generator.py)\<close>

text \<open>
  A shallow embedding of \<^verbatim>\<open>src/mtg/ml/generator.py\<close>: the base class
  \<^verbatim>\<open>MTGDataGenerator\<close>, its subclasses \<^verbatim>\<open>DraftGenerator\<close> and
  \<^verbatim>\<open>DeckGenerator\<close>, and \<^verbatim>\<open>create_train_and_val_gens\<close>.
  Every exception of the Python is a value \<open>Inl e\<close>; every call of
  \<^verbatim>\<open>np.random\<close> takes its outcome as an explicit argument, so that a statement
  "for every random outcome" is a statement for every value of that argument.
\<close>

subsection \<open>Errors\<close>

datatype py_error =
    ZeroDivisionError | IndexError | KeyError | ValueError
  | TypeError | AttributeError | NotImplementedError

definition bnd :: "py_error + 'a \<Rightarrow> ('a \<Rightarrow> py_error + 'b) \<Rightarrow> py_error + 'b" where
  "bnd m f = (case m of Inl e \<Rightarrow> Inl e | Inr x \<Rightarrow> f x)"

subsection \<open>Floating-point values\<close>

text \<open>
  numpy computes in binary64: the result of an operation on finite values is the exact
  result, rounded. Every definition that computes with floats takes the rounding as its
  argument \<open>rd\<close>: \<open>id\<close> gives exact arithmetic and \<open>round53\<close> gives binary64, rounding
  to the nearest value with 53 significant bits and, halfway between two of them, to the
  one with an even last bit. Overflow and subnormal numbers are left out of \<open>round53\<close>.
\<close>

fun halvings :: "nat \<Rightarrow> real \<Rightarrow> int" where
  "halvings 0 x = 0"
| "halvings (Suc n) x = (if x < 2 then 0 else halvings n (x / 2) + 1)"

fun doublings :: "nat \<Rightarrow> real \<Rightarrow> int" where
  "doublings 0 x = 0"
| "doublings (Suc n) x = (if 1 \<le> x then 0 else doublings n (2 * x) - 1)"

text \<open>The exponent \<open>e\<close> of a positive \<open>x\<close>: \<open>2 ^ e \<le> x < 2 ^ (e + 1)\<close>.\<close>

definition exponent :: "real \<Rightarrow> int" where
  "exponent x =
     (if 1 \<le> x then halvings (nat \<lfloor>x\<rfloor>) x else doublings (nat \<lceil>1 / x\<rceil>) x)"

definition pow2 :: "int \<Rightarrow> real" where
  "pow2 e = (if 0 \<le> e then 2 ^ nat e else 1 / 2 ^ nat (- e))"

definition round53 :: "real \<Rightarrow> real" where
  "round53 x =
     (if x = 0 then 0
      else
        let ulp = pow2 (exponent \<bar>x\<bar> - 52);
            q = \<bar>x\<bar> / ulp;
            f = \<lfloor>q\<rfloor>;
            n = (if q - of_int f < 1 / 2 then f
                 else if 1 / 2 < q - of_int f then f + 1
                 else if even f then f else f + 1)
        in sgn x * of_int n * ulp)"

text \<open>
  numpy divides by zero without raising: \<open>x / 0\<close> is \<open>+inf\<close>, \<open>-inf\<close> or \<open>nan\<close>, and
  these values propagate through additions and comparisons as IEEE 754 says.
\<close>

datatype fl = Fin real | PInf | NInf | NaN

definition fl_div :: "(real \<Rightarrow> real) \<Rightarrow> real \<Rightarrow> real \<Rightarrow> fl" where
  "fl_div rd x s =
     (if s \<noteq> 0 then Fin (rd (x / s))
      else if 0 < x then PInf else if x < 0 then NInf else NaN)"

fun fl_add :: "(real \<Rightarrow> real) \<Rightarrow> fl \<Rightarrow> fl \<Rightarrow> fl" where
  "fl_add rd (Fin a) (Fin b) = Fin (rd (a + b))"
| "fl_add rd NaN _ = NaN"
| "fl_add rd _ NaN = NaN"
| "fl_add rd PInf NInf = NaN"
| "fl_add rd NInf PInf = NaN"
| "fl_add rd PInf _ = PInf"
| "fl_add rd _ PInf = PInf"
| "fl_add rd NInf _ = NInf"
| "fl_add rd _ NInf = NInf"

fun fl_less :: "real \<Rightarrow> fl \<Rightarrow> bool" where
  "fl_less r (Fin c) = (r < c)"
| "fl_less r PInf = True"
| "fl_less r NInf = False"
| "fl_less r NaN = False"

subsection \<open>Tables\<close>

text \<open>
  A pandas DataFrame: the labels of its numeric columns, its rows (one value per numeric
  column), and the label-valued column \<^verbatim>\<open>draft_id\<close> when the frame has one.
\<close>

record dataframe =
  columns :: "string list"
  rows :: "real list list"
  draft_id :: "string list option"

definition wf_frame :: "dataframe \<Rightarrow> bool" where
  "wf_frame d \<longleftrightarrow>
     list_all (\<lambda>r. length r = length (columns d)) (rows d) \<and> distinct (columns d) \<and>
     (case draft_id d of None \<Rightarrow> True | Some ids \<Rightarrow> length ids = length (rows d))"

text \<open>\<^verbatim>\<open>data[name]\<close> for a numeric column; a missing label raises KeyError.\<close>

fun index_of :: "'a \<Rightarrow> 'a list \<Rightarrow> nat" where
  "index_of x [] = 0"
| "index_of x (y # ys) = (if x = y then 0 else Suc (index_of x ys))"

definition get_col :: "dataframe \<Rightarrow> string \<Rightarrow> py_error + real list" where
  "get_col d name =
     (if name \<in> set (columns d)
      then Inr (map (\<lambda>r. r ! index_of name (columns d)) (rows d))
      else Inl KeyError)"

text \<open>
  A two-dimensional numpy array: its second dimension is kept beside the rows, since an
  array without rows still has one.
\<close>

record mat =
  ncols :: nat
  mrows :: "real list list"

text \<open>The rows of an array all have its second dimension as their length.\<close>

definition wf_mat :: "mat \<Rightarrow> bool" where
  "wf_mat m \<longleftrightarrow> list_all (\<lambda>r. length r = ncols m) (mrows m)"

text \<open>\<^verbatim>\<open>data[cols]\<close> for the labels \<open>cols\<close> that satisfy \<open>P\<close>, row by row.\<close>

definition select_rows :: "(string \<Rightarrow> bool) \<Rightarrow> dataframe \<Rightarrow> real list list" where
  "select_rows P d = map (\<lambda>r. map snd (filter (\<lambda>(c, v). P c) (zip (columns d) r))) (rows d)"

text \<open>\<^verbatim>\<open>data[cols].values\<close>.\<close>

definition select_cols :: "(string \<Rightarrow> bool) \<Rightarrow> dataframe \<Rightarrow> mat" where
  "select_cols P d = \<lparr>ncols = length (filter P (columns d)), mrows = select_rows P d\<rparr>"

text \<open>\<^verbatim>\<open>Series.unique()\<close>: the distinct values in order of first appearance.\<close>

fun unique :: "'a list \<Rightarrow> 'a list" where
  "unique [] = []"
| "unique (x # xs) = x # unique (filter (\<lambda>y. y \<noteq> x) xs)"

text \<open>\<^verbatim>\<open>xs[lo:hi]\<close> with Python's treatment of negative and too large bounds.\<close>

definition py_slice :: "'a list \<Rightarrow> int \<Rightarrow> int \<Rightarrow> 'a list" where
  "py_slice xs lo hi =
     (let n = int (length xs);
          a = (if lo < 0 then max (lo + n) 0 else min lo n);
          b = (if hi < 0 then max (hi + n) 0 else min hi n)
      in take (nat (b - a)) (drop (nat a) xs))"

text \<open>\<^verbatim>\<open>arr[indices]\<close> with an array of non-negative positions.\<close>

definition take_at :: "'a list \<Rightarrow> nat list \<Rightarrow> py_error + 'a list" where
  "take_at xs is = (if list_all (\<lambda>i. i < length xs) is then Inr (map (\<lambda>i. xs ! i) is) else Inl IndexError)"

subsection \<open>Random shuffling\<close>

text \<open>
  \<^verbatim>\<open>np.random.shuffle\<close> walks the array from its last position down to position 1 and
  swaps position \<open>i\<close> with a position drawn from \<open>0..i\<close>. The draws are the argument
  \<open>rnd\<close>: the draw for position \<open>i\<close> is \<open>rnd i mod (i + 1)\<close>, so every function is an
  outcome and every outcome comes from a function.
\<close>

fun shuffle_loop :: "nat \<Rightarrow> (nat \<Rightarrow> nat) \<Rightarrow> 'a list \<Rightarrow> 'a list" where
  "shuffle_loop 0 rnd xs = xs"
| "shuffle_loop (Suc i) rnd xs =
     (let j = rnd (Suc i) mod Suc (Suc i)
      in shuffle_loop i rnd (xs[Suc i := xs ! j, j := xs ! Suc i]))"

definition np_shuffle :: "(nat \<Rightarrow> nat) \<Rightarrow> 'a list \<Rightarrow> 'a list" where
  "np_shuffle rnd xs = shuffle_loop (length xs - 1) rnd xs"

subsection \<open>MTGDataGenerator\<close>

record generator =
  cards :: "(int \<times> string) list"
  card_col_prefixes :: "string list"
  exclude_basics :: bool
  store_basics :: bool
  batch_size :: int
  shuffle :: bool
  to_fit :: bool
  n_cards :: nat
  all_cards :: "string list"
  attrs :: "string \<rightharpoonup> mat"
  weights :: "real list option"
  size_g :: nat
  indices :: "nat list"

text \<open>\<^verbatim>\<open>__len__\<close>: Python's \<open>//\<close> raises on a zero divisor and rounds down otherwise.\<close>

definition len_gen :: "'a generator_scheme \<Rightarrow> py_error + int" where
  "len_gen g =
     (if batch_size g = 0 then Inl ZeroDivisionError
      else Inr (int (size_g g) div batch_size g))"

definition reset_indices :: "(nat \<Rightarrow> nat) \<Rightarrow> 'a generator_scheme \<Rightarrow> 'a generator_scheme" where
  "reset_indices rnd g =
     (let arange = [0 ..< size_g g]
      in g\<lparr>indices := (if shuffle g then np_shuffle rnd arange else arange)\<rparr>)"

definition on_epoch_end :: "(nat \<Rightarrow> nat) \<Rightarrow> 'a generator_scheme \<Rightarrow> 'a generator_scheme" where
  "on_epoch_end rnd g = reset_indices rnd g"

text \<open>
  The lookups filter the card table and take the first hit (\<^verbatim>\<open>.iloc[0]\<close>, IndexError
  when there is none). Their second parameter is never read.
\<close>

definition card_name_to_idx :: "'a generator_scheme \<Rightarrow> string \<Rightarrow> bool \<Rightarrow> py_error + int" where
  "card_name_to_idx g card_name excl =
     (case filter (\<lambda>(i, n). n = card_name) (cards g) of
        [] \<Rightarrow> Inl IndexError
      | (i, n) # _ \<Rightarrow> Inr i)"

definition card_idx_to_name :: "'a generator_scheme \<Rightarrow> int \<Rightarrow> bool \<Rightarrow> py_error + string" where
  "card_idx_to_name g card_idx excl =
     (case filter (\<lambda>(i, n). i = card_idx) (cards g) of
        [] \<Rightarrow> Inl IndexError
      | (i, n) # _ \<Rightarrow> Inr n)"

text \<open>The card table as \<^verbatim>\<open>__init__\<close> stores it (lines 18 to 24).\<close>

definition init_cards :: "(int \<times> string) list \<Rightarrow> bool \<Rightarrow> (int \<times> string) list" where
  "init_cards cs excl =
     (let sorted_cs = sort_key fst cs
      in if excl then map (\<lambda>(i, n). (i - 5, n)) (drop 5 sorted_cs) else sorted_cs)"

text \<open>\<^verbatim>\<open>generate_global_data\<close> of the base class (lines 56 to 72).\<close>

definition basics :: "string list" where
  "basics = [''plains'', ''island'', ''swamp'', ''mountain'', ''forest'']"

text \<open>\<^verbatim>\<open>col.split("_", 1)[-1]\<close>: what follows the first underscore, or all of \<open>col\<close>.\<close>

definition after_underscore :: "string \<Rightarrow> string" where
  "after_underscore col =
     (case dropWhile (\<lambda>c. c \<noteq> CHR ''_'') col of [] \<Rightarrow> col | _ # rest \<Rightarrow> rest)"

text \<open>
  The column filters of lines 64 and 67: a feature column starts with the prefix and an
  underscore and contains none of the excluded names anywhere in its label; a basics
  column is the prefix, an underscore and a basic land name, exactly.
\<close>

definition is_feature_col :: "string \<Rightarrow> string list \<Rightarrow> string \<Rightarrow> bool" where
  "is_feature_col pfx exclude_cards col \<longleftrightarrow>
     prefix (pfx @ ''_'') col \<and> \<not> list_ex (\<lambda>x. sublist x col) exclude_cards"

definition is_basic_col :: "string \<Rightarrow> string \<Rightarrow> bool" where
  "is_basic_col pfx col \<longleftrightarrow> list_ex (\<lambda>x. pfx @ ''_'' @ x = col) basics"

definition set_prefix_attrs ::
  "dataframe \<Rightarrow> bool \<Rightarrow> string list \<Rightarrow> string \<Rightarrow> (string \<rightharpoonup> mat) \<Rightarrow> (string \<rightharpoonup> mat)" where
  "set_prefix_attrs data store exclude_cards pfx m =
     (let m1 = m(pfx \<mapsto> select_cols (is_feature_col pfx exclude_cards) data)
      in if store then m1(pfx @ ''_basics'' \<mapsto> select_cols (is_basic_col pfx) data) else m1)"

definition generate_global_data :: "dataframe \<Rightarrow> generator \<Rightarrow> py_error + generator" where
  "generate_global_data data self =
     (case card_col_prefixes self of
        [] \<Rightarrow> Inl IndexError
      | p0 # _ \<Rightarrow>
         (let exclude_cards = (if exclude_basics self then basics else [])
          in Inr (self\<lparr>
               all_cards := map after_underscore (filter (prefix p0) (columns data)),
               attrs := fold (set_prefix_attrs data (store_basics self) exclude_cards)
                          (card_col_prefixes self) (attrs self),
               weights := (case get_col data ''ml_weights'' of
                             Inl _ \<Rightarrow> None | Inr w \<Rightarrow> Some w)\<rparr>)))"

text \<open>
  \<^verbatim>\<open>__init__\<close> of the base class. The object before \<^verbatim>\<open>__init__\<close> runs is \<open>self\<close>;
  \<open>ggd\<close> is the \<^verbatim>\<open>generate_global_data\<close> of the class being constructed, and \<open>rnd\<close>
  the outcome of the shuffle.
\<close>

definition MTGDataGenerator_init ::
  "(dataframe \<Rightarrow> 'a generator_scheme \<Rightarrow> py_error + 'a generator_scheme) \<Rightarrow>
   'a generator_scheme \<Rightarrow> dataframe \<Rightarrow> (int \<times> string) list \<Rightarrow> string list \<Rightarrow>
   int \<Rightarrow> bool \<Rightarrow> bool \<Rightarrow> bool \<Rightarrow> bool \<Rightarrow> (nat \<Rightarrow> nat) \<Rightarrow> py_error + 'a generator_scheme" where
  "MTGDataGenerator_init ggd self data cs pfxs bs shuf fit excl store rnd =
     (let cs' = init_cards cs excl;
          self1 = self\<lparr>cards := cs', card_col_prefixes := pfxs, exclude_basics := excl,
                       store_basics := store, batch_size := bs, shuffle := shuf,
                       to_fit := fit, n_cards := length cs'\<rparr>
      in bnd (ggd data self1)
           (\<lambda>self2. Inr (reset_indices rnd (self2\<lparr>size_g := length (rows data)\<rparr>))))"

text \<open>An object with no attribute set yet.\<close>

definition blank :: generator where
  "blank = \<lparr>cards = [], card_col_prefixes = [], exclude_basics = False, store_basics = False,
            batch_size = 0, shuffle = False, to_fit = False, n_cards = 0, all_cards = [],
            attrs = Map.empty, weights = None, size_g = 0, indices = []\<rparr>"

text \<open>
  \<^verbatim>\<open>__getitem__\<close>: the slice of the index permutation goes to the class's
  \<^verbatim>\<open>generate_data\<close>; outside fit mode only the features are returned.
\<close>

datatype ('x, 'y) batch = Fit 'x 'y "fl list option" | Predict 'x

definition batch_indices :: "'a generator_scheme \<Rightarrow> int \<Rightarrow> nat list" where
  "batch_indices g batch_number =
     py_slice (indices g) (batch_number * batch_size g) ((batch_number + 1) * batch_size g)"

definition getitem ::
  "('a generator_scheme \<Rightarrow> nat list \<Rightarrow> py_error + ('x \<times> 'y \<times> fl list option)) \<Rightarrow>
   'a generator_scheme \<Rightarrow> int \<Rightarrow> py_error + ('x, 'y) batch" where
  "getitem gen_data g batch_number =
     bnd (gen_data g (batch_indices g batch_number))
       (\<lambda>(X, y, w). Inr (if to_fit g then Fit X y w else Predict X))"

text \<open>\<^verbatim>\<open>generate_data\<close> of the base class raises.\<close>

definition generate_data :: "generator \<Rightarrow> nat list \<Rightarrow> py_error + (unit \<times> unit \<times> fl list option)" where
  "generate_data g is = Inl NotImplementedError"

text \<open>
  \<^verbatim>\<open>self.weights[indices] / self.weights[indices].sum()\<close>, or None without weights
  (lines 148 to 151 and 181 to 184). The sum is rounded once here; numpy rounds after
  each of its additions.
\<close>

definition batch_weights ::
  "(real \<Rightarrow> real) \<Rightarrow> real list option \<Rightarrow> nat list \<Rightarrow> py_error + fl list option" where
  "batch_weights rd ws is =
     (case ws of
        None \<Rightarrow> Inr None
      | Some w \<Rightarrow>
          bnd (take_at w is)
            (\<lambda>sel. Inr (Some (map (\<lambda>x. fl_div rd x (rd (sum_list sel))) sel))))"

subsection \<open>DeckGenerator\<close>

definition get_attr :: "(string \<rightharpoonup> 'v) \<Rightarrow> string \<Rightarrow> py_error + 'v" where
  "get_attr m name = (case m name of None \<Rightarrow> Inl AttributeError | Some v \<Rightarrow> Inr v)"

text \<open>\<^verbatim>\<open>m[indices, :]\<close>.\<close>

definition rows_at :: "mat \<Rightarrow> nat list \<Rightarrow> py_error + mat" where
  "rows_at m is = bnd (take_at (mrows m) is) (\<lambda>rs. Inr \<lparr>ncols = ncols m, mrows = rs\<rparr>)"

text \<open>
  \<^verbatim>\<open>a + b\<close> for two arrays with the same number of rows: numpy stretches a second
  dimension of 1 and refuses any other mismatch.
\<close>

definition mat_add :: "mat \<Rightarrow> mat \<Rightarrow> py_error + mat" where
  "mat_add a b =
     (if ncols a = ncols b then
        Inr \<lparr>ncols = ncols a,
             mrows = map (\<lambda>(ra, rb). map (\<lambda>(x, y). x + y) (zip ra rb)) (zip (mrows a) (mrows b))\<rparr>
      else if ncols a = 1 then
        Inr \<lparr>ncols = ncols b,
             mrows = map (\<lambda>(ra, rb). map (\<lambda>y. hd ra + y) rb) (zip (mrows a) (mrows b))\<rparr>
      else if ncols b = 1 then
        Inr \<lparr>ncols = ncols a,
             mrows = map (\<lambda>(ra, rb). map (\<lambda>x. x + hd rb) ra) (zip (mrows a) (mrows b))\<rparr>
      else Inl ValueError)"

text \<open>
  \<^verbatim>\<open>get_vectorized_sample\<close> (lines 188 to 192), one row at a time: the row divided by
  its sum, the running sums, the comparison with the row's uniform draw, and
  \<^verbatim>\<open>argmax\<close>, which gives the position of the first True and 0 when there is none.
  \<^verbatim>\<open>argmax\<close> along an axis of length 0 raises ValueError. The entries of a row are
  card counts, so their sum is exact in binary64 too; each quotient and each running sum
  is rounded.
\<close>

fun cumsum_from :: "(real \<Rightarrow> real) \<Rightarrow> fl \<Rightarrow> fl list \<Rightarrow> fl list" where
  "cumsum_from rd acc [] = []"
| "cumsum_from rd acc (x # xs) = fl_add rd acc x # cumsum_from rd (fl_add rd acc x) xs"

definition cumsum :: "(real \<Rightarrow> real) \<Rightarrow> fl list \<Rightarrow> fl list" where
  "cumsum rd xs = (case xs of [] \<Rightarrow> [] | x # rest \<Rightarrow> x # cumsum_from rd x rest)"

definition argmax_bool :: "bool list \<Rightarrow> nat" where
  "argmax_bool bs = (if True \<in> set bs then index_of True bs else 0)"

definition sample_row :: "(real \<Rightarrow> real) \<Rightarrow> real list \<Rightarrow> real \<Rightarrow> nat" where
  "sample_row rd row r =
     (let probabilities = map (\<lambda>x. fl_div rd x (sum_list row)) row;
          cumulative_dist = cumsum rd probabilities
      in argmax_bool (map (fl_less r) cumulative_dist))"

definition get_vectorized_sample ::
  "(real \<Rightarrow> real) \<Rightarrow> (nat \<Rightarrow> real) \<Rightarrow> mat \<Rightarrow> py_error + nat list" where
  "get_vectorized_sample rd random_bin mtx =
     (if ncols mtx = 0 then Inl ValueError
      else Inr (map (\<lambda>(i, row). sample_row rd row (random_bin i)) (enumerate 0 (mrows mtx))))"

text \<open>\<^verbatim>\<open>m[np.arange(k), anchors] = 0\<close> on a copy of \<open>m\<close>, with \<open>k = len(anchors)\<close>.\<close>

definition zero_at :: "mat \<Rightarrow> nat list \<Rightarrow> py_error + mat" where
  "zero_at m anchors =
     (if length anchors \<le> length (mrows m) \<and> list_all (\<lambda>a. a < ncols m) anchors
      then Inr (m\<lparr>mrows := map (\<lambda>(row, a). row[a := 0]) (zip (mrows m) anchors)
                              @ drop (length anchors) (mrows m)\<rparr>)
      else Inl IndexError)"

text \<open>
  \<^verbatim>\<open>sample_card_pairs\<close> (lines 194 to 206). The three calls of
  \<^verbatim>\<open>np.random.rand\<close> are \<open>u1\<close>, \<open>u2\<close> and \<open>u3\<close>, each giving the draw of a row.
\<close>

definition sample_card_pairs ::
  "(real \<Rightarrow> real) \<Rightarrow> (nat \<Rightarrow> real) \<Rightarrow> (nat \<Rightarrow> real) \<Rightarrow> (nat \<Rightarrow> real) \<Rightarrow> mat \<Rightarrow> mat \<Rightarrow>
   py_error + (nat list \<times> nat list \<times> nat list)" where
  "sample_card_pairs rd u1 u2 u3 decks sideboards =
     bnd (get_vectorized_sample rd u1 decks) (\<lambda>anchors.
     bnd (zero_at decks anchors) (\<lambda>decks_without_anchors.
     bnd (zero_at sideboards anchors) (\<lambda>sideboards_without_anchors.
     bnd (get_vectorized_sample rd u2 decks_without_anchors) (\<lambda>positive_samples.
     bnd (get_vectorized_sample rd u3 sideboards_without_anchors) (\<lambda>negative_samples.
       Inr (anchors, positive_samples, negative_samples))))))"

text \<open>\<^verbatim>\<open>DeckGenerator.generate_data\<close> (lines 176 to 186).\<close>

definition deck_generate_data ::
  "(real \<Rightarrow> real) \<Rightarrow> (nat \<Rightarrow> real) \<Rightarrow> (nat \<Rightarrow> real) \<Rightarrow> (nat \<Rightarrow> real) \<Rightarrow> generator \<Rightarrow> nat list \<Rightarrow>
   py_error + ((mat \<times> nat list \<times> nat list \<times> nat list) \<times> (mat \<times> mat) \<times> fl list option)" where
  "deck_generate_data rd u1 u2 u3 self is =
     bnd (get_attr (attrs self) ''deck'') (\<lambda>deck.
     bnd (rows_at deck is) (\<lambda>decks.
     bnd (get_attr (attrs self) ''sideboard'') (\<lambda>sideboard.
     bnd (rows_at sideboard is) (\<lambda>sideboards.
     bnd (get_attr (attrs self) ''deck_basics'') (\<lambda>deck_basics.
     bnd (rows_at deck_basics is) (\<lambda>basics_rows.
     bnd (mat_add decks sideboards) (\<lambda>pools.
     bnd (batch_weights rd (weights self) is) (\<lambda>w.
     bnd (sample_card_pairs rd u1 u2 u3 decks sideboards) (\<lambda>(anchor, pos, neg).
       Inr ((pools, anchor, pos, neg), (basics_rows, decks), w))))))))))"

definition DeckGenerator_init ::
  "dataframe \<Rightarrow> (int \<times> string) list \<Rightarrow> int \<Rightarrow> bool \<Rightarrow> bool \<Rightarrow> bool \<Rightarrow> bool \<Rightarrow>
   (nat \<Rightarrow> nat) \<Rightarrow> py_error + generator" where
  "DeckGenerator_init data cs bs shuf fit excl store rnd =
     MTGDataGenerator_init generate_global_data blank data cs [''deck'', ''sideboard'']
       bs shuf fit excl store rnd"

subsection \<open>DraftGenerator\<close>

text \<open>
  A frame indexed by \<^verbatim>\<open>(draft_id, position)\<close>: the draft id of each row, the column
  labels and the rows. A series with that index is the draft ids beside the values.
\<close>

record idx_frame =
  flabels :: "string list"
  fcolumns :: "string list"
  fvalues :: "real list list"

record draft_generator = generator +
  draft_ids :: "string list"
  t_len :: fl
  frames :: "string \<rightharpoonup> idx_frame"
  pick :: "string list \<times> real list"
  position :: "string list \<times> real list"

text \<open>\<^verbatim>\<open>Series.max()\<close> of a series with at least one value.\<close>

definition series_max :: "real list \<Rightarrow> real" where
  "series_max xs = (case xs of [] \<Rightarrow> 0 | x # rest \<Rightarrow> fold max rest x)"

text \<open>\<^verbatim>\<open>set_index\<close> takes a numeric column out of the columns of the frame.\<close>

definition drop_col :: "string \<Rightarrow> dataframe \<Rightarrow> dataframe" where
  "drop_col name d =
     d\<lparr>columns := filter (\<lambda>c. c \<noteq> name) (columns d),
       rows := select_rows (\<lambda>c. c \<noteq> name) d\<rparr>"

definition set_prefix_frames ::
  "string list \<Rightarrow> dataframe \<Rightarrow> bool \<Rightarrow> string list \<Rightarrow> string \<Rightarrow>
   (string \<rightharpoonup> idx_frame) \<Rightarrow> (string \<rightharpoonup> idx_frame)" where
  "set_prefix_frames ids data store exclude_cards pfx m =
     (let m1 = m(pfx \<mapsto> \<lparr>flabels = ids,
                          fcolumns = filter (is_feature_col pfx exclude_cards) (columns data),
                          fvalues = select_rows (is_feature_col pfx exclude_cards) data\<rparr>)
      in if store
         then m1(pfx @ ''_basics'' \<mapsto> \<lparr>flabels = ids,
                          fcolumns = filter (is_basic_col pfx) (columns data),
                          fvalues = select_rows (is_basic_col pfx) data\<rparr>)
         else m1)"

text \<open>
  \<^verbatim>\<open>DraftGenerator.generate_global_data\<close> (lines 118 to 139). The maximum of an
  empty column is \<open>nan\<close>.
\<close>

definition draft_generate_global_data ::
  "dataframe \<Rightarrow> draft_generator \<Rightarrow> py_error + draft_generator" where
  "draft_generate_global_data data0 self =
     (case draft_id data0 of
        None \<Rightarrow> Inl KeyError
      | Some ids \<Rightarrow>
     bnd (get_col data0 ''position'') (\<lambda>pos.
       let t = (if pos = [] then NaN else Fin (series_max pos + 1));
           data = drop_col ''position'' data0
       in case card_col_prefixes self of
            [] \<Rightarrow> Inl IndexError
          | p0 # _ \<Rightarrow>
       let exclude_cards = (if exclude_basics self then basics else [])
       in
     bnd (get_col data ''pick'') (\<lambda>pick_col.
     bnd (get_col data ''pack_number'') (\<lambda>pack_number.
     bnd (get_col data ''pick_number'') (\<lambda>pick_number.
       Inr (self\<lparr>
         all_cards := map after_underscore (filter (prefix p0) (columns data)),
         weights := (case get_col data ''ml_weights'' of Inl _ \<Rightarrow> None | Inr w \<Rightarrow> Some w),
         draft_ids := unique ids,
         t_len := t,
         frames := fold (set_prefix_frames ids data (store_basics self) exclude_cards)
                     (card_col_prefixes self) (frames self),
         pick := (ids, pick_col),
         position := (ids, map (\<lambda>(a, b). a * (series_max pick_number + 1) + b)
                              (zip pack_number pick_number))\<rparr>))))))"

text \<open>
  \<^verbatim>\<open>.loc[draft_ids]\<close> on the first level of the index: the rows of each requested
  draft, draft by draft; KeyError for a draft id the index does not have.
\<close>

definition loc_rows :: "string list \<Rightarrow> 'a list \<Rightarrow> string list \<Rightarrow> py_error + 'a list" where
  "loc_rows labels vals keys =
     (if list_all (\<lambda>k. k \<in> set labels) keys
      then Inr (concat (map (\<lambda>k. map snd (filter (\<lambda>(l, v). l = k) (zip labels vals))) keys))
      else Inl KeyError)"

text \<open>
  \<^verbatim>\<open>values.reshape(k, t, c)\<close> of the values in row-major order. \<open>k\<close> and \<open>c\<close> are lengths;
  \<open>t\<close> is computed from the data: it must be an integer, \<open>-1\<close> asks numpy to infer the
  dimension, any other negative value is refused, and the three dimensions must multiply
  to the number of values.
\<close>

fun chunks :: "nat \<Rightarrow> nat \<Rightarrow> 'a list \<Rightarrow> 'a list list" where
  "chunks 0 n xs = []"
| "chunks (Suc m) n xs = take n xs # chunks m n (drop n xs)"

definition chunk3 :: "'a list \<Rightarrow> nat \<Rightarrow> nat \<Rightarrow> nat \<Rightarrow> 'a list list list" where
  "chunk3 flat k t c = map (chunks t c) (chunks k (t * c) flat)"

definition reshape3 :: "'a list \<Rightarrow> nat \<Rightarrow> fl \<Rightarrow> nat \<Rightarrow> py_error + 'a list list list" where
  "reshape3 flat k t c =
     (case t of
        Fin r \<Rightarrow>
          if r \<noteq> of_int \<lfloor>r\<rfloor> then Inl TypeError
          else if \<lfloor>r\<rfloor> = - 1 then
            (if k * c = 0 \<or> length flat mod (k * c) \<noteq> 0 then Inl ValueError
             else Inr (chunk3 flat k (length flat div (k * c)) c))
          else if \<lfloor>r\<rfloor> < 0 then Inl ValueError
          else if k * nat \<lfloor>r\<rfloor> * c \<noteq> length flat then Inl ValueError
          else Inr (chunk3 flat k (nat \<lfloor>r\<rfloor>) c)
      | _ \<Rightarrow> Inl TypeError)"

text \<open>\<^verbatim>\<open>np.concatenate([a, b], axis=-1)\<close> of two arrays that agree in the first two dimensions.\<close>

definition concat_last :: "'a list list list \<Rightarrow> 'a list list list \<Rightarrow> 'a list list list" where
  "concat_last a b = map (\<lambda>(p, q). map (\<lambda>(x, y). x @ y) (zip p q)) (zip a b)"

text \<open>\<^verbatim>\<open>astype(np.int32)\<close> of a value within the range of the type: the fraction is cut off.\<close>

definition astype_int32 :: "real \<Rightarrow> int" where
  "astype_int32 x = (if 0 \<le> x then \<lfloor>x\<rfloor> else \<lceil>x\<rceil>)"

text \<open>The shape of a three-dimensional array.\<close>

definition has_shape3 :: "'a list list list \<Rightarrow> nat \<Rightarrow> nat \<Rightarrow> nat \<Rightarrow> bool" where
  "has_shape3 x k t c \<longleftrightarrow>
     length x = k \<and> list_all (\<lambda>p. length p = t \<and> list_all (\<lambda>v. length v = c) p) x"

text \<open>\<^verbatim>\<open>DraftGenerator.generate_data\<close> (lines 141 to 152).\<close>

definition draft_generate_data ::
  "(real \<Rightarrow> real) \<Rightarrow> draft_generator \<Rightarrow> nat list \<Rightarrow>
   py_error + ((real list list list \<times> int list list list) \<times> int list list list \<times> fl list option)" where
  "draft_generate_data rd self is =
     bnd (take_at (draft_ids self) is) (\<lambda>dids.
     bnd (get_attr (frames self) ''pack_card'') (\<lambda>pack_card.
     bnd (loc_rows (flabels pack_card) (fvalues pack_card) dids) (\<lambda>pack_rows.
     bnd (reshape3 (concat pack_rows) (length is) (t_len self) (length (fcolumns pack_card))) (\<lambda>packs.
     bnd (get_attr (frames self) ''pool'') (\<lambda>pool.
     bnd (loc_rows (flabels pool) (fvalues pool) dids) (\<lambda>pool_rows.
     bnd (reshape3 (concat pool_rows) (length is) (t_len self) (length (fcolumns pack_card))) (\<lambda>pools.
     bnd (loc_rows (fst (pick self)) (snd (pick self)) dids) (\<lambda>pick_vals.
     bnd (reshape3 pick_vals (length is) (t_len self) 1) (\<lambda>picks.
     bnd (loc_rows (fst (position self)) (snd (position self)) dids) (\<lambda>position_vals.
     bnd (reshape3 position_vals (length is) (t_len self) 1) (\<lambda>positions.
     bnd (batch_weights rd (weights self) is) (\<lambda>w.
       Inr ((concat_last packs pools, map (map (map astype_int32)) positions),
            map (map (map astype_int32)) picks, w)))))))))))))"

definition blank_draft :: draft_generator where
  "blank_draft = generator.extend blank
     \<lparr>draft_ids = [], t_len = NaN, frames = Map.empty, pick = ([], []), position = ([], [])\<rparr>"

text \<open>
  \<^verbatim>\<open>DraftGenerator.__init__\<close> (lines 94 to 116): the base constructor, then the size
  becomes the number of drafts and the indices are drawn again (\<open>rnd2\<close>).
\<close>

definition DraftGenerator_init ::
  "dataframe \<Rightarrow> (int \<times> string) list \<Rightarrow> int \<Rightarrow> bool \<Rightarrow> bool \<Rightarrow> bool \<Rightarrow> bool \<Rightarrow>
   (nat \<Rightarrow> nat) \<Rightarrow> (nat \<Rightarrow> nat) \<Rightarrow> py_error + draft_generator" where
  "DraftGenerator_init data cs bs shuf fit excl store rnd1 rnd2 =
     bnd (MTGDataGenerator_init draft_generate_global_data blank_draft data cs
            [''pack_card'', ''pool''] bs shuf fit excl store rnd1)
       (\<lambda>self. Inr (reset_indices rnd2 (self\<lparr>size_g := length (draft_ids self)\<rparr>)))"

subsection \<open>create_train_and_val_gens\<close>

text \<open>\<^verbatim>\<open>data[name] = vals\<close>: the column is replaced, or added as the last one.\<close>

definition set_col :: "string \<Rightarrow> real list \<Rightarrow> dataframe \<Rightarrow> py_error + dataframe" where
  "set_col name vals d =
     (if length vals \<noteq> length (rows d) then Inl ValueError
      else if name \<in> set (columns d) then
        Inr (d\<lparr>rows := map (\<lambda>(r, v). r[index_of name (columns d) := v]) (zip (rows d) vals)\<rparr>)
      else
        Inr (d\<lparr>columns := columns d @ [name],
               rows := map (\<lambda>(r, v). r @ [v]) (zip (rows d) vals)\<rparr>))"

text \<open>\<^verbatim>\<open>data[keep]\<close> for a boolean array \<open>keep\<close> with one entry per row.\<close>

definition filter_rows :: "bool list \<Rightarrow> dataframe \<Rightarrow> dataframe" where
  "filter_rows keep d =
     d\<lparr>rows := map snd (filter fst (zip keep (rows d))),
       draft_id := map_option (\<lambda>ids. map snd (filter fst (zip keep ids))) (draft_id d)\<rparr>"

text \<open>\<^verbatim>\<open>data[id_col]\<close>, for the label-valued column or a numeric one.\<close>

definition id_values :: "dataframe \<Rightarrow> string \<Rightarrow> py_error + (string + real) list" where
  "id_values d c =
     (if c = ''draft_id''
      then (case draft_id d of None \<Rightarrow> Inl KeyError | Some ids \<Rightarrow> Inr (map Inl ids))
      else bnd (get_col d c) (\<lambda>vs. Inr (map Inr vs)))"

text \<open>Python's \<^verbatim>\<open>len(g)\<close> refuses a negative \<^verbatim>\<open>__len__\<close>.\<close>

definition py_len :: "'a generator_scheme \<Rightarrow> py_error + int" where
  "py_len g = bnd (len_gen g) (\<lambda>n. if n < 0 then Inl ValueError else Inr n)"

text \<open>
  The split of lines 223 to 237. \<open>chosen\<close> is what \<^verbatim>\<open>np.random.choice\<close> draws; a
  negative sample size is refused by it. Without an id column the row split indexes the
  frame with \<^verbatim>\<open>data[train_idxs, :]\<close>, a key no DataFrame takes.
\<close>

definition split_train_test ::
  "dataframe \<Rightarrow> string option \<Rightarrow> real \<Rightarrow> (string + real) list \<Rightarrow>
   py_error + (dataframe \<times> dataframe option)" where
  "split_train_test data id_col train_p chosen =
     (if train_p < 1 then
        (case id_col of
           None \<Rightarrow>
             Inl (if real (length (rows data)) * train_p \<le> - 1 then ValueError else TypeError)
         | Some c \<Rightarrow>
             bnd (id_values data c) (\<lambda>ids.
               if real (length (unique ids)) * train_p \<le> - 1 then Inl ValueError
               else
                 let keep = map (\<lambda>i. i \<in> set chosen) ids
                 in Inr (filter_rows keep data, Some (filter_rows (map Not keep) data))))
      else Inr (data, None))"

text \<open>
  \<^verbatim>\<open>create_train_and_val_gens\<close> (lines 208 to 259). \<open>generator\<close> is the class to
  construct, called as on lines 238 and 249 (\<^verbatim>\<open>store_basics\<close> is not passed); \<open>iw\<close> is
  what \<^verbatim>\<open>importance_weighting(data)\<close> returns, \<open>rt\<close> and \<open>rv\<close> are the shuffles of
  the two constructors.
\<close>

definition create_train_and_val_gens ::
  "(dataframe \<Rightarrow> (int \<times> string) list \<Rightarrow> int \<Rightarrow> bool \<Rightarrow> bool \<Rightarrow> bool \<Rightarrow> 'r \<Rightarrow>
      py_error + 'a generator_scheme) \<Rightarrow>
   dataframe \<Rightarrow> (int \<times> string) list \<Rightarrow> string option \<Rightarrow> real \<Rightarrow> bool \<Rightarrow> int \<Rightarrow>
   bool \<Rightarrow> bool \<Rightarrow> bool \<Rightarrow> real list \<Rightarrow> (string + real) list \<Rightarrow> 'r \<Rightarrow> 'r \<Rightarrow>
   py_error + ('a generator_scheme \<times> 'a generator_scheme option)" where
  "create_train_and_val_gens generator data0 cs id_col train_p use_weights train_batch_size
       shuf fit excl iw chosen rt rv =
     bnd (if use_weights then set_col ''ml_weights'' iw data0 else Inr data0) (\<lambda>data.
     bnd (split_train_test data id_col train_p chosen) (\<lambda>(train_data, test_data).
     bnd (generator train_data cs train_batch_size shuf fit excl rt) (\<lambda>train_gen.
       case test_data of
         None \<Rightarrow> Inr (train_gen, None)
       | Some td \<Rightarrow>
           bnd (py_len train_gen) (\<lambda>n_train_batches.
             if n_train_batches = 0 then Inl ZeroDivisionError
             else
               let val_batch_size = int (length (rows td)) div n_train_batches
               in bnd (generator td cs val_batch_size shuf fit excl rv) (\<lambda>val_gen.
                    Inr (train_gen, Some val_gen))))))"

text \<open>The three classes as \<^verbatim>\<open>create_train_and_val_gens\<close> calls them.\<close>

definition base_class ::
  "dataframe \<Rightarrow> (int \<times> string) list \<Rightarrow> int \<Rightarrow> bool \<Rightarrow> bool \<Rightarrow> bool \<Rightarrow> (nat \<Rightarrow> nat) \<Rightarrow>
   py_error + generator" where
  "base_class data cs bs shuf fit excl rnd = Inl TypeError"

definition deck_class ::
  "dataframe \<Rightarrow> (int \<times> string) list \<Rightarrow> int \<Rightarrow> bool \<Rightarrow> bool \<Rightarrow> bool \<Rightarrow> (nat \<Rightarrow> nat) \<Rightarrow>
   py_error + generator" where
  "deck_class data cs bs shuf fit excl rnd = DeckGenerator_init data cs bs shuf fit excl False rnd"

definition draft_class ::
  "dataframe \<Rightarrow> (int \<times> string) list \<Rightarrow> int \<Rightarrow> bool \<Rightarrow> bool \<Rightarrow> bool \<Rightarrow>
   (nat \<Rightarrow> nat) \<times> (nat \<Rightarrow> nat) \<Rightarrow> py_error + draft_generator" where
  "draft_class data cs bs shuf fit excl rnd =
     DraftGenerator_init data cs bs shuf fit excl False (fst rnd) (snd rnd)"

section \<open>Example tables\<close>

text \<open>
  A draft table with one draft of two picks over a single card, beside a card table of
  two cards; a deck table with five decks over three cards.
\<close>

definition cards_ex :: "(int \<times> string) list" where
  "cards_ex = [(1, ''bear''), (0, ''shock'')]"

definition draft_data_ex :: dataframe where
  "draft_data_ex =
     \<lparr>columns = [''position'', ''pick'', ''pack_number'', ''pick_number'',
                 ''pack_card_shock'', ''pool_shock'', ''ml_weights''],
      rows = [[0, 0, 0, 0, 1, 0, 1], [1, 0, 0, 1, 1, 1, 3]],
      draft_id = Some [''d1'', ''d1'']\<rparr>"

definition cards3_ex :: "(int \<times> string) list" where
  "cards3_ex = [(0, ''bolt''), (1, ''bear''), (2, ''shock'')]"

definition deck_data_ex :: dataframe where
  "deck_data_ex =
     \<lparr>columns = [''deck_bolt'', ''deck_bear'', ''deck_shock'',
                 ''sideboard_bolt'', ''sideboard_bear'', ''sideboard_shock'', ''ml_weights''],
      rows = [[3, 0, 1, 1, 2, 0, 1], [1, 1, 0, 0, 1, 1, 3], [0, 2, 2, 1, 0, 1, 1],
              [2, 0, 2, 1, 1, 0, 2], [1, 1, 1, 1, 1, 1, 1]],
      draft_id = Some [''d1'', ''d2'', ''d3'', ''d4'', ''d5'']\<rparr>"

text \<open>Outcomes of the random calls used in the examples.\<close>

definition rnd_ex :: "nat \<Rightarrow> nat" where
  "rnd_ex i = 0"

definition half :: "nat \<Rightarrow> real" where
  "half i = 1 / 2"

definition cards7_ex :: "(int \<times> string) list" where
  "cards7_ex = [(0, ''plains''), (1, ''island''), (2, ''swamp''), (3, ''mountain''),
                (4, ''forest''), (5, ''bear''), (6, ''shock'')]"

text \<open>Generators constructed from the example tables.\<close>

definition base_gen_ex :: generator where
  "base_gen_ex =
     projr (MTGDataGenerator_init generate_global_data blank deck_data_ex cards3_ex [''deck'']
              2 False True False False rnd_ex)"

definition deck_gen_ex :: generator where
  "deck_gen_ex = projr (DeckGenerator_init deck_data_ex cards3_ex 2 True True False True rnd_ex)"

definition draft_gen_ex :: draft_generator where
  "draft_gen_ex =
     projr (DraftGenerator_init draft_data_ex cards_ex 1 False True False False rnd_ex rnd_ex)"

definition deck7_gen_ex :: generator where
  "deck7_gen_ex = projr (DeckGenerator_init deck_data_ex cards7_ex 2 False True True False rnd_ex)"

definition decks_ex :: mat where
  "decks_ex = \<lparr>ncols = 3, mrows = [[3, 0, 1], [1, 1, 0]]\<rparr>"

definition sideboards_ex :: mat where
  "sideboards_ex = \<lparr>ncols = 3, mrows = [[1, 2, 0], [0, 1, 1]]\<rparr>"

text \<open>
  Two splits of the deck table by draft id, without weights: four of the five ids go to
  training with batch size 1, and two of them with batch size 2.
\<close>

definition split_ex :: "py_error + (generator \<times> generator option)" where
  "split_ex =
     create_train_and_val_gens deck_class deck_data_ex cards3_ex (Some ''draft_id'') (4 / 5)
       False 1 False True False []
       [Inl ''d1'', Inl ''d2'', Inl ''d3'', Inl ''d4''] rnd_ex rnd_ex"

definition split2_ex :: "py_error + (generator \<times> generator option)" where
  "split2_ex =
     create_train_and_val_gens deck_class deck_data_ex cards3_ex (Some ''draft_id'') (2 / 5)
       False 2 False True False []
       [Inl ''d1'', Inl ''d2''] rnd_ex rnd_ex"

text \<open>A draft table with two drafts of one pick, split into one draft each.\<close>

definition draft2_data_ex :: dataframe where
  "draft2_data_ex =
     \<lparr>columns = [''position'', ''pick'', ''pack_number'', ''pick_number'',
                 ''pack_card_shock'', ''pool_shock''],
      rows = [[0, 0, 0, 0, 1, 0], [0, 0, 0, 0, 1, 1]],
      draft_id = Some [''d1'', ''d2'']\<rparr>"

definition split3_ex :: "py_error + (draft_generator \<times> draft_generator option)" where
  "split3_ex =
     create_train_and_val_gens draft_class draft2_data_ex cards_ex (Some ''draft_id'') (1 / 2)
       False 1 False True False [] [Inl ''d1''] (rnd_ex, rnd_ex) (rnd_ex, rnd_ex)"

section \<open>Properties\<close>

subsection \<open>Index permutation and card lookups\<close>

lemma shuffle_loop_mset: "i < length xs \<Longrightarrow> mset (shuffle_loop i rnd xs) = mset xs"
proof (induction i arbitrary: xs)
  case 0 then show ?case by simp
next
  case (Suc i)
  let ?j = "rnd (Suc i) mod Suc (Suc i)"
  have j: "?j < length xs" using Suc.prems by (meson Suc_lessI less_trans_Suc mod_less_divisor not_less_eq zero_less_Suc less_le_trans mod_less_divisor Suc_leI)
  have "mset (xs[Suc i := xs ! ?j, ?j := xs ! Suc i]) = mset xs"
    using mset_swap[OF j Suc.prems] by simp
  moreover have "i < length (xs[Suc i := xs ! ?j, ?j := xs ! Suc i])" using Suc.prems by simp
  ultimately show ?case using Suc.IH by (simp add: Let_def)
qed

lemma np_shuffle_mset: "mset (np_shuffle rnd xs) = mset xs"
proof (cases xs)
  case Nil then show ?thesis by (simp add: np_shuffle_def)
next
  case (Cons a list)
  then show ?thesis unfolding np_shuffle_def by (intro shuffle_loop_mset) simp
qed

lemma reset_indices_perm:
  "mset (indices (reset_indices rnd g)) = mset [0 ..< size_g g]"
  by (simp add: reset_indices_def Let_def np_shuffle_mset)

lemma reset_indices_identity:
  "\<not> shuffle g \<Longrightarrow> indices (reset_indices rnd g) = [0 ..< size_g g]"
  by (simp add: reset_indices_def Let_def)

lemma reset_indices_size: "size_g (reset_indices rnd g) = size_g g"
  by (simp add: reset_indices_def Let_def)


lemma first_hit:
  assumes "distinct (map fst cs)" "(i, n) \<in> set cs"
  shows "filter (\<lambda>(j, m). j = i) cs = [(i, n)]"
  using assms
proof (induction cs)
  case Nil then show ?case by simp
next
  case (Cons a cs)
  then show ?case by (cases a) (auto simp: image_iff filter_empty_conv rev_image_eqI)
qed

lemma name_hit:
  assumes "n \<in> snd ` set cs"
  shows "\<exists>i rest. filter (\<lambda>(j, m). m = n) cs = (i, n) # rest \<and> (i, n) \<in> set cs"
proof -
  from assms have "filter (\<lambda>(j, m). m = n) cs \<noteq> []" by (auto simp: filter_empty_conv)
  then obtain i m rest where pr: "filter (\<lambda>(j, m). m = n) cs = (i, m) # rest"
    by (cases "filter (\<lambda>(j, m). m = n) cs") auto
  then have "(i, m) \<in> set (filter (\<lambda>(j, m). m = n) cs)" by simp
  then have "(i, m) \<in> set cs" "m = n" by auto
  then show ?thesis using pr by auto
qed

lemma roundtrip_state:
  assumes "distinct (map fst (cards g))" "n \<in> snd ` set (cards g)"
  shows "bnd (card_name_to_idx g n a) (\<lambda>i. card_idx_to_name g i b) = Inr n"
proof -
  obtain i rest where h: "filter (\<lambda>(j, m). m = n) (cards g) = (i, n) # rest" "(i, n) \<in> set (cards g)"
    using name_hit[OF assms(2)] by blast
  have "card_name_to_idx g n a = Inr i" using h(1) by (simp add: card_name_to_idx_def)
  moreover have "card_idx_to_name g i b = Inr n" using first_hit[OF assms(1) h(2)] by (simp add: card_idx_to_name_def)
  ultimately show ?thesis by (simp add: bnd_def)
qed

lemma init_cards_distinct: "distinct (map fst cs) \<Longrightarrow> distinct (map fst (init_cards cs excl))"
proof -
  assume d: "distinct (map fst cs)"
  have "mset (map fst (sort_key fst cs)) = mset (map fst cs)" by simp
  then have s: "distinct (map fst (sort_key fst cs))" using d by (metis mset_eq_imp_distinct_iff)
  have e: "map fst (map (\<lambda>(i, n). (i - 5, n)) (drop 5 (sort_key fst cs)))
             = map (\<lambda>i. i - 5) (drop 5 (map fst (sort_key fst cs)))"
    by (simp add: drop_map case_prod_unfold comp_def)
  have "distinct (map (\<lambda>i::int. i - 5) (drop 5 (map fst (sort_key fst cs))))"
    using s by (intro iffD2[OF distinct_map]) (auto simp: inj_on_def distinct_drop)
  then show ?thesis using s e by (simp add: init_cards_def Let_def del: map_map)
qed

subsection \<open>Constructed generators and batch slices\<close>

lemma DeckGenerator_init_fields:
  assumes "DeckGenerator_init data cs bs shuf fit excl store rnd = Inr g"
  shows "cards g = init_cards cs excl" "batch_size g = bs" "size_g g = length (rows data)"
    "to_fit g = fit" "shuffle g = shuf" "n_cards g = length (init_cards cs excl)"
    "indices g = (if shuf then np_shuffle rnd [0 ..< length (rows data)] else [0 ..< length (rows data)])"
    "weights g = (case get_col data ''ml_weights'' of Inl _ \<Rightarrow> None | Inr w \<Rightarrow> Some w)"
    "attrs g ''deck'' = Some (select_cols (is_feature_col ''deck'' (if excl then basics else [])) data)"
    "attrs g ''sideboard'' = Some (select_cols (is_feature_col ''sideboard'' (if excl then basics else [])) data)"
    "attrs g ''deck_basics'' = (if store then Some (select_cols (is_basic_col ''deck'') data) else None)"
  using assms
  by (auto simp: DeckGenerator_init_def MTGDataGenerator_init_def generate_global_data_def
      bnd_def Let_def reset_indices_def blank_def set_prefix_attrs_def)

lemma DeckGenerator_init_total:
  "\<exists>g. DeckGenerator_init data cs bs shuf fit excl store rnd = Inr g"
  by (simp add: DeckGenerator_init_def MTGDataGenerator_init_def generate_global_data_def
      bnd_def Let_def)

lemma py_slice_batch:
  assumes "0 < bs" "0 \<le> b"
  shows "py_slice xs (b * bs) ((b + 1) * bs) = take (nat bs) (drop (nat (b * bs)) xs)"
proof -
  have nn: "0 \<le> b * bs" "0 \<le> (b + 1) * bs" using assms by simp_all
  show ?thesis
  proof (cases "b * bs \<le> int (length xs)")
    case True
    show ?thesis
    proof (cases "(b + 1) * bs \<le> int (length xs)")
      case True
      have "(b + 1) * bs - b * bs = bs" by (simp add: algebra_simps)
      then show ?thesis using True \<open>b * bs \<le> int (length xs)\<close> nn
        by (simp add: py_slice_def Let_def min_def)
    next
      case False
      have "length (drop (nat (b * bs)) xs) \<le> nat bs" using False True nn
        by (simp add: algebra_simps)
      then show ?thesis using False True nn
        by (simp add: py_slice_def Let_def min_def nat_diff_distrib)
    qed
  next
    case False
    then have "\<not> (b + 1) * bs \<le> int (length xs)" using assms
      by (smt (verit) mult_right_mono)
    then show ?thesis using False nn by (simp add: py_slice_def Let_def min_def)
  qed
qed


lemma int_le_div_iff:
  assumes "0 < (bs::int)"
  shows "k \<le> n div bs \<longleftrightarrow> k * bs \<le> n"
proof -
  have "(n + (- k) * bs) div bs = n div bs + (- k)"
    using assms by (subst div_mult_self1) simp_all
  then have "(n - k * bs) div bs = n div bs - k" by simp
  then show ?thesis using pos_imp_zdiv_nonneg_iff[OF assms, of "n - k * bs"] by simp
qed

lemma batch_complete_iff:
  assumes "0 < bs" "0 \<le> b"
  shows "int (length (py_slice xs (b * bs) ((b + 1) * bs))) = bs \<longleftrightarrow> b < int (length xs) div bs"
proof -
  have nn: "0 \<le> b * bs" using assms by simp
  obtain k m where k: "bs = int k" "0 < k" and m: "b * bs = int m"
    using assms nn by (metis nat_0_le zero_less_nat_eq order_less_imp_le)
  have "length (py_slice xs (b * bs) ((b + 1) * bs)) = min k (length xs - m)"
    unfolding py_slice_batch[OF assms] using k m by simp
  then have "int (length (py_slice xs (b * bs) ((b + 1) * bs))) = bs \<longleftrightarrow> k + m \<le> length xs"
    using k by (auto simp: min_def)
  also have "\<dots> \<longleftrightarrow> (b + 1) * bs \<le> int (length xs)"
    using k m by (simp add: algebra_simps) linarith
  also have "\<dots> \<longleftrightarrow> b + 1 \<le> int (length xs) div bs" using int_le_div_iff[OF assms(1)] by simp
  finally show ?thesis by auto
qed

lemma py_slice_subset: "set (py_slice xs lo hi) \<subseteq> set xs"
  by (auto simp: py_slice_def Let_def dest!: in_set_takeD in_set_dropD)

lemma bnd_Inr_iff: "bnd m f = Inr y \<longleftrightarrow> (\<exists>x. m = Inr x \<and> f x = Inr y)"
  by (cases m) (simp_all add: bnd_def)

lemma bnd_Inr [simp]: "bnd (Inr x) f = f x"
  by (simp add: bnd_def)

lemma bnd_Inl [simp]: "bnd (Inl e) f = Inl e"
  by (simp add: bnd_def)

lemma draft_ggd_result:
  assumes "draft_generate_global_data data self = Inr g" "card_col_prefixes self = p0 # ps"
  shows "\<exists>ids pos pk pn kn.
      draft_id data = Some ids \<and> get_col data ''position'' = Inr pos \<and>
      get_col (drop_col ''position'' data) ''pick'' = Inr pk \<and>
      get_col (drop_col ''position'' data) ''pack_number'' = Inr pn \<and>
      get_col (drop_col ''position'' data) ''pick_number'' = Inr kn \<and>
      g = self\<lparr>
         all_cards := map after_underscore (filter (prefix p0) (columns (drop_col ''position'' data))),
         weights := (case get_col (drop_col ''position'' data) ''ml_weights'' of Inl _ \<Rightarrow> None | Inr w \<Rightarrow> Some w),
         draft_ids := unique ids,
         t_len := (if pos = [] then NaN else Fin (series_max pos + 1)),
         frames := fold (set_prefix_frames ids (drop_col ''position'' data) (store_basics self)
                       (if exclude_basics self then basics else []))
                     (card_col_prefixes self) (frames self),
         pick := (ids, pk),
         position := (ids, map (\<lambda>(a, b). a * (series_max kn + 1) + b) (zip pn kn))\<rparr>"
proof -
  obtain ids where ids: "draft_id data = Some ids"
    using assms(1) by (cases "draft_id data") (simp_all add: draft_generate_global_data_def)
  obtain pos where pos: "get_col data ''position'' = Inr pos"
    using assms(1) ids by (cases "get_col data ''position''") (simp_all add: draft_generate_global_data_def)
  let ?d = "drop_col ''position'' data"
  obtain pk where pk: "get_col ?d ''pick'' = Inr pk"
    using assms ids pos by (cases "get_col ?d ''pick''") (simp_all add: draft_generate_global_data_def Let_def)
  obtain pn where pn: "get_col ?d ''pack_number'' = Inr pn"
    using assms ids pos pk by (cases "get_col ?d ''pack_number''") (simp_all add: draft_generate_global_data_def Let_def)
  obtain kn where kn: "get_col ?d ''pick_number'' = Inr kn"
    using assms ids pos pk pn by (cases "get_col ?d ''pick_number''") (simp_all add: draft_generate_global_data_def Let_def)
  have "g = self\<lparr>
         all_cards := map after_underscore (filter (prefix p0) (columns ?d)),
         weights := (case get_col ?d ''ml_weights'' of Inl _ \<Rightarrow> None | Inr w \<Rightarrow> Some w),
         draft_ids := unique ids,
         t_len := (if pos = [] then NaN else Fin (series_max pos + 1)),
         frames := fold (set_prefix_frames ids ?d (store_basics self)
                       (if exclude_basics self then basics else []))
                     (card_col_prefixes self) (frames self),
         pick := (ids, pk),
         position := (ids, map (\<lambda>(a, b). a * (series_max kn + 1) + b) (zip pn kn))\<rparr>"
    using assms ids pos pk pn kn by (simp add: draft_generate_global_data_def Let_def)
  then show ?thesis using ids pos pk pn kn by blast
qed


lemma frames_fold_draft:
  "fold (set_prefix_frames ids d store ex) [''pack_card'', ''pool''] Map.empty ''pack_card''
     = Some \<lparr>flabels = ids, fcolumns = filter (is_feature_col ''pack_card'' ex) (columns d),
             fvalues = select_rows (is_feature_col ''pack_card'' ex) d\<rparr>"
  "fold (set_prefix_frames ids d store ex) [''pack_card'', ''pool''] Map.empty ''pool''
     = Some \<lparr>flabels = ids, fcolumns = filter (is_feature_col ''pool'' ex) (columns d),
             fvalues = select_rows (is_feature_col ''pool'' ex) d\<rparr>"
  by (simp_all add: set_prefix_frames_def Let_def)

lemma DraftGenerator_init_fields:
  assumes "DraftGenerator_init data cs bs shuf fit excl store rnd1 rnd2 = Inr g"
  shows "\<exists>ids pos pk pn kn.
      draft_id data = Some ids \<and> get_col data ''position'' = Inr pos \<and>
      get_col (drop_col ''position'' data) ''pick'' = Inr pk \<and>
      get_col (drop_col ''position'' data) ''pack_number'' = Inr pn \<and>
      get_col (drop_col ''position'' data) ''pick_number'' = Inr kn \<and>
      draft_ids g = unique ids \<and> size_g g = length (unique ids) \<and>
      indices g = (if shuf then np_shuffle rnd2 [0 ..< length (unique ids)] else [0 ..< length (unique ids)]) \<and>
      batch_size g = bs \<and> shuffle g = shuf \<and> to_fit g = fit \<and>
      cards g = init_cards cs excl \<and> n_cards g = length (init_cards cs excl) \<and>
      t_len g = (if pos = [] then NaN else Fin (series_max pos + 1)) \<and>
      frames g ''pack_card'' = Some \<lparr>flabels = ids,
          fcolumns = filter (is_feature_col ''pack_card'' (if excl then basics else [])) (columns (drop_col ''position'' data)),
          fvalues = select_rows (is_feature_col ''pack_card'' (if excl then basics else [])) (drop_col ''position'' data)\<rparr> \<and>
      frames g ''pool'' = Some \<lparr>flabels = ids,
          fcolumns = filter (is_feature_col ''pool'' (if excl then basics else [])) (columns (drop_col ''position'' data)),
          fvalues = select_rows (is_feature_col ''pool'' (if excl then basics else [])) (drop_col ''position'' data)\<rparr> \<and>
      pick g = (ids, pk) \<and>
      position g = (ids, map (\<lambda>(a, b). a * (series_max kn + 1) + b) (zip pn kn)) \<and>
      weights g = (case get_col (drop_col ''position'' data) ''ml_weights'' of Inl _ \<Rightarrow> None | Inr w \<Rightarrow> Some w)"
proof -
  let ?self1 = "blank_draft\<lparr>cards := init_cards cs excl, card_col_prefixes := [''pack_card'', ''pool''],
       exclude_basics := excl, store_basics := store, batch_size := bs, shuffle := shuf,
       to_fit := fit, n_cards := length (init_cards cs excl)\<rparr>"
  from assms obtain g1 where g1: "MTGDataGenerator_init draft_generate_global_data blank_draft data cs
            [''pack_card'', ''pool''] bs shuf fit excl store rnd1 = Inr g1"
     and g: "g = reset_indices rnd2 (g1\<lparr>size_g := length (draft_ids g1)\<rparr>)"
    unfolding DraftGenerator_init_def bnd_Inr_iff by auto
  from g1 obtain g2 where g2: "draft_generate_global_data data ?self1 = Inr g2"
     and g1': "g1 = reset_indices rnd1 (g2\<lparr>size_g := length (rows data)\<rparr>)"
    unfolding MTGDataGenerator_init_def Let_def bnd_Inr_iff by auto
  have p: "card_col_prefixes ?self1 = ''pack_card'' # [''pool'']" by simp
  from draft_ggd_result[OF g2 p] obtain ids pos pk pn kn where
     c: "draft_id data = Some ids" "get_col data ''position'' = Inr pos"
      "get_col (drop_col ''position'' data) ''pick'' = Inr pk"
      "get_col (drop_col ''position'' data) ''pack_number'' = Inr pn"
      "get_col (drop_col ''position'' data) ''pick_number'' = Inr kn"
    and g2': "g2 = ?self1\<lparr>
         all_cards := map after_underscore (filter (prefix ''pack_card'') (columns (drop_col ''position'' data))),
         weights := (case get_col (drop_col ''position'' data) ''ml_weights'' of Inl _ \<Rightarrow> None | Inr w \<Rightarrow> Some w),
         draft_ids := unique ids,
         t_len := (if pos = [] then NaN else Fin (series_max pos + 1)),
         frames := fold (set_prefix_frames ids (drop_col ''position'' data) (store_basics ?self1)
                       (if exclude_basics ?self1 then basics else []))
                     (card_col_prefixes ?self1) (frames ?self1),
         pick := (ids, pk),
         position := (ids, map (\<lambda>(a, b). a * (series_max kn + 1) + b) (zip pn kn))\<rparr>"
    by blast
  have fr: "frames blank_draft = Map.empty"
    by (simp add: blank_draft_def generator.extend_def)
  have f: "draft_ids g = unique ids" "size_g g = length (unique ids)"
      "indices g = (if shuf then np_shuffle rnd2 [0 ..< length (unique ids)] else [0 ..< length (unique ids)])"
      "batch_size g = bs" "shuffle g = shuf" "to_fit g = fit"
      "cards g = init_cards cs excl" "n_cards g = length (init_cards cs excl)"
      "t_len g = (if pos = [] then NaN else Fin (series_max pos + 1))"
      "pick g = (ids, pk)"
      "position g = (ids, map (\<lambda>(a, b). a * (series_max kn + 1) + b) (zip pn kn))"
      "weights g = (case get_col (drop_col ''position'' data) ''ml_weights'' of Inl _ \<Rightarrow> None | Inr w \<Rightarrow> Some w)"
    unfolding g g1' g2' by (simp_all add: reset_indices_def Let_def)
  have "frames g = fold (set_prefix_frames ids (drop_col ''position'' data) store
                       (if excl then basics else [])) [''pack_card'', ''pool''] Map.empty"
    unfolding g g1' g2' by (simp add: reset_indices_def Let_def fr)
  then have fs: "frames g ''pack_card'' = Some \<lparr>flabels = ids,
          fcolumns = filter (is_feature_col ''pack_card'' (if excl then basics else [])) (columns (drop_col ''position'' data)),
          fvalues = select_rows (is_feature_col ''pack_card'' (if excl then basics else [])) (drop_col ''position'' data)\<rparr>"
     "frames g ''pool'' = Some \<lparr>flabels = ids,
          fcolumns = filter (is_feature_col ''pool'' (if excl then basics else [])) (columns (drop_col ''position'' data)),
          fvalues = select_rows (is_feature_col ''pool'' (if excl then basics else [])) (drop_col ''position'' data)\<rparr>"
    using frames_fold_draft by simp_all
  show ?thesis using c f fs by blast
qed

lemma unique_set: "set (unique xs) = set xs"
proof (induction xs rule: unique.induct)
  case 1 then show ?case by simp
next
  case (2 x xs) then show ?case by auto
qed

lemma unique_distinct: "distinct (unique xs)"
proof (induction xs rule: unique.induct)
  case 1 then show ?case by simp
next
  case (2 x xs) then show ?case by (simp add: unique_set)
qed

lemma length_unique: "length (unique xs) = card (set xs)"
  by (metis unique_set unique_distinct distinct_card)

lemma len_gen_floor:
  "batch_size g \<noteq> 0 \<Longrightarrow> len_gen g = Inr \<lfloor>real (size_g g) / real_of_int (batch_size g)\<rfloor>"
proof -
  assume "batch_size g \<noteq> 0"
  moreover have "\<lfloor>real_of_int (int (size_g g)) / real_of_int (batch_size g)\<rfloor> = int (size_g g) div batch_size g"
    by (rule floor_divide_of_int_eq)
  ultimately show ?thesis by (simp add: len_gen_def)
qed

lemma complete_batches:
  assumes "0 < batch_size g" "length (indices g) = size_g g" "0 \<le> b"
  shows "int (length (batch_indices g b)) = batch_size g \<longleftrightarrow> b < int (size_g g) div batch_size g"
  using batch_complete_iff[OF assms(1,3), of "indices g"] assms(2) by (simp add: batch_indices_def)

lemma np_shuffle_length: "length (np_shuffle rnd xs) = length xs"
  by (metis np_shuffle_mset size_mset)

lemma Deck_indices_length:
  "DeckGenerator_init data cs bs shuf fit excl store rnd = Inr g \<Longrightarrow> length (indices g) = size_g g"
  by (simp add: DeckGenerator_init_fields np_shuffle_length)

lemma Draft_indices_length:
  "DraftGenerator_init data cs bs shuf fit excl store rnd1 rnd2 = Inr g \<Longrightarrow> length (indices g) = size_g g"
  using DraftGenerator_init_fields[of data cs bs shuf fit excl store rnd1 rnd2 g]
  by (auto simp: np_shuffle_length)

lemma Base_init_fields:
  assumes "MTGDataGenerator_init generate_global_data blank data cs pfxs bs shuf fit excl store rnd = Inr g"
  shows "batch_size g = bs" "size_g g = length (rows data)" "cards g = init_cards cs excl"
    "indices g = (if shuf then np_shuffle rnd [0 ..< length (rows data)] else [0 ..< length (rows data)])"
  using assms
  by (auto simp: MTGDataGenerator_init_def generate_global_data_def Let_def reset_indices_def
      bnd_Inr_iff split: list.splits)

lemma len_and_batches:
  assumes "batch_size g \<noteq> 0" "length (indices g) = size_g g"
  shows "len_gen g = Inr \<lfloor>real (size_g g) / real_of_int (batch_size g)\<rfloor> \<and>
         (0 < batch_size g \<longrightarrow>
           (\<forall>b\<ge>0. int (length (batch_indices g b)) = batch_size g \<longleftrightarrow>
                    b < \<lfloor>real (size_g g) / real_of_int (batch_size g)\<rfloor>))"
proof -
  have f: "\<lfloor>real (size_g g) / real_of_int (batch_size g)\<rfloor> = int (size_g g) div batch_size g"
    using floor_divide_of_int_eq[of "int (size_g g)" "batch_size g"] by simp
  show ?thesis
    using len_gen_floor[OF assms(1)] complete_batches[OF _ assms(2)] unfolding f by simp
qed

lemma indices_bound:
  assumes "mset (indices g) = mset [0 ..< size_g g]"
  shows "\<forall>i \<in> set (batch_indices g b). i < size_g g"
proof -
  have "set (indices g) = set [0 ..< size_g g]" using assms by (metis set_mset_mset)
  then show ?thesis
    using py_slice_subset[of "indices g" "b * batch_size g" "(b + 1) * batch_size g"]
    unfolding batch_indices_def by fastforce
qed

lemma Deck_indices_perm:
  "DeckGenerator_init data cs bs shuf fit excl store rnd = Inr g \<Longrightarrow> mset (indices g) = mset [0 ..< size_g g]"
  by (simp add: DeckGenerator_init_fields np_shuffle_mset)

lemma Draft_indices_perm:
  "DraftGenerator_init data cs bs shuf fit excl store rnd1 rnd2 = Inr g \<Longrightarrow> mset (indices g) = mset [0 ..< size_g g]"
  using DraftGenerator_init_fields[of data cs bs shuf fit excl store rnd1 rnd2 g]
  by (auto simp: np_shuffle_mset)

subsection \<open>The example generators\<close>

lemma base_gen_ex_init:
  "MTGDataGenerator_init generate_global_data blank deck_data_ex cards3_ex [''deck'']
     2 False True False False rnd_ex = Inr base_gen_ex"
  unfolding base_gen_ex_def
  by (simp add: MTGDataGenerator_init_def generate_global_data_def Let_def)

lemma deck_gen_ex_init:
  "DeckGenerator_init deck_data_ex cards3_ex 2 True True False True rnd_ex = Inr deck_gen_ex"
  unfolding deck_gen_ex_def
  using DeckGenerator_init_total[of deck_data_ex cards3_ex 2 True True False True rnd_ex] by auto

lemma draft_gen_ex_init:
  "DraftGenerator_init draft_data_ex cards_ex 1 False True False False rnd_ex rnd_ex = Inr draft_gen_ex"
proof -
  have "\<not> isl (DraftGenerator_init draft_data_ex cards_ex 1 False True False False rnd_ex rnd_ex)"
    by code_simp
  then show ?thesis unfolding draft_gen_ex_def by simp
qed

lemma deck7_gen_ex_init:
  "DeckGenerator_init deck_data_ex cards7_ex 2 False True True False rnd_ex = Inr deck7_gen_ex"
  unfolding deck7_gen_ex_def
  using DeckGenerator_init_total[of deck_data_ex cards7_ex 2 False True True False rnd_ex] by auto

subsection \<open>Deck batches\<close>

lemma length_select_rows [simp]: "length (select_rows P d) = length (rows d)"
  by (simp add: select_rows_def)

lemma take_at_ok: "\<forall>i \<in> set is. i < length xs \<Longrightarrow> take_at xs is = Inr (map (\<lambda>i. xs ! i) is)"
  by (simp add: take_at_def list_all_iff)

lemma rows_at_ok:
  "\<forall>i \<in> set is. i < length (mrows m) \<Longrightarrow>
     rows_at m is = Inr \<lparr>ncols = ncols m, mrows = map (\<lambda>i. mrows m ! i) is\<rparr>"
  by (simp add: rows_at_def take_at_ok)

lemma deck_generate_data_no_basics:
  assumes a: "DeckGenerator_init data cs bs shuf fit excl False rnd = Inr g"
  shows "deck_generate_data rd u1 u2 u3 g (batch_indices g b) = Inl AttributeError"
proof -
  let ?is = "batch_indices g b"
  have bound: "\<forall>i \<in> set ?is. i < length (rows data)"
    using indices_bound[OF Deck_indices_perm[OF a], of b] DeckGenerator_init_fields(3)[OF a] by simp
  let ?ex = "if excl then basics else []"
  have d: "get_attr (attrs g) ''deck'' = Inr (select_cols (is_feature_col ''deck'' ?ex) data)"
    and s: "get_attr (attrs g) ''sideboard'' = Inr (select_cols (is_feature_col ''sideboard'' ?ex) data)"
    and n: "get_attr (attrs g) ''deck_basics'' = Inl AttributeError"
    using DeckGenerator_init_fields(9,10,11)[OF a] by (simp_all add: get_attr_def)
  have rd: "\<exists>m. rows_at (select_cols (is_feature_col ''deck'' ?ex) data) ?is = Inr m"
    using bound by (subst rows_at_ok) (simp_all add: select_cols_def)
  have rs: "\<exists>m. rows_at (select_cols (is_feature_col ''sideboard'' ?ex) data) ?is = Inr m"
    using bound by (subst rows_at_ok) (simp_all add: select_cols_def)
  from rd rs obtain m1 m2 where
    m: "rows_at (select_cols (is_feature_col ''deck'' ?ex) data) ?is = Inr m1"
       "rows_at (select_cols (is_feature_col ''sideboard'' ?ex) data) ?is = Inr m2" by blast
  show ?thesis unfolding deck_generate_data_def d s n by (simp add: m)
qed

lemma index_of_less: "x \<in> set xs \<Longrightarrow> index_of x xs < length xs \<and> xs ! index_of x xs = x"
  by (induction xs) auto

lemma cumsum_from_not_pinf:
  assumes "acc = NInf \<or> acc = NaN" "\<forall>y \<in> set ys. \<forall>r. y \<noteq> Fin r"
  shows "\<forall>c \<in> set (cumsum_from rd acc ys). c = NInf \<or> c = NaN"
  using assms
proof (induction ys arbitrary: acc)
  case Nil then show ?case by simp
next
  case (Cons y ys)
  have "fl_add rd acc y = NInf \<or> fl_add rd acc y = NaN"
    using Cons.prems by (cases y; cases acc) auto
  then show ?case using Cons by simp
qed

lemma fl_div_zero_cases: "fl_div rd x 0 = PInf \<or> fl_div rd x 0 = NInf \<or> fl_div rd x 0 = NaN"
  by (simp add: fl_div_def)

lemma sample_row_zero:
  assumes "sum_list row = 0"
  shows "sample_row rd row r = 0"
proof (cases row)
  case Nil
  then show ?thesis by (simp add: sample_row_def cumsum_def argmax_bool_def)
next
  case (Cons x rest)
  let ?p = "fl_div rd x 0"
  let ?ps = "map (\<lambda>y. fl_div rd y 0) rest"
  have c: "cumsum rd (map (\<lambda>y. fl_div rd y (sum_list row)) row) = ?p # cumsum_from rd ?p ?ps"
    using assms Cons by (simp add: cumsum_def)
  show ?thesis
  proof (cases "?p = PInf")
    case True
    then show ?thesis unfolding sample_row_def Let_def c by (simp add: argmax_bool_def)
  next
    case False
    then have n: "?p = NInf \<or> ?p = NaN" using fl_div_zero_cases[of rd x] by blast
    have "\<forall>y \<in> set ?ps. \<forall>r. y \<noteq> Fin r" by (auto simp: fl_div_def)
    from cumsum_from_not_pinf[OF n this]
    have "\<forall>c \<in> set (?p # cumsum_from rd ?p ?ps). c = NInf \<or> c = NaN" using n by simp
    then have "\<forall>c \<in> set (?p # cumsum_from rd ?p ?ps). \<not> fl_less r c" by auto
    then have "True \<notin> set (map (fl_less r) (?p # cumsum_from rd ?p ?ps))" by auto
    then show ?thesis unfolding sample_row_def Let_def c argmax_bool_def by simp
  qed
qed

lemma get_vectorized_sample_ok:
  assumes "0 < ncols mtx"
  shows "get_vectorized_sample rd u mtx =
           Inr (map (\<lambda>(i, row). sample_row rd row (u i)) (enumerate 0 (mrows mtx)))"
  using assms by (simp add: get_vectorized_sample_def)

lemma fl_div_fin: "s \<noteq> 0 \<Longrightarrow> map (\<lambda>x. fl_div rd x s) row = map (\<lambda>x. Fin (rd (x / s))) row"
  by (simp add: fl_div_def)

lemma cumsum_fin: "cumsum id (map (\<lambda>x. Fin (f x)) xs) = cumsum_from id (Fin 0) (map (\<lambda>x. Fin (f x)) xs)"
  by (cases xs) (simp_all add: cumsum_def)

lemma first_bin:
  assumes "0 < s" "acc \<le> r" "r < acc + sum_list xs / s"
  shows "True \<in> set (map (fl_less r) (cumsum_from id (Fin acc) (map (\<lambda>x. Fin (x / s)) xs))) \<and>
         0 < xs ! index_of True (map (fl_less r) (cumsum_from id (Fin acc) (map (\<lambda>x. Fin (x / s)) xs)))"
  using assms
proof (induction xs arbitrary: acc)
  case Nil
  then show ?case by simp
next
  case (Cons x xs)
  show ?case
  proof (cases "r < acc + x / s")
    case True
    then have "0 < x / s" using Cons.prems(2) by linarith
    then have "0 < x" using Cons.prems(1) by (simp add: zero_less_divide_iff)
    then show ?thesis using True by simp
  next
    case False
    then have a: "acc + x / s \<le> r" by simp
    have b: "r < (acc + x / s) + sum_list xs / s"
      using Cons.prems(3) by (simp add: add_divide_distrib)
    from Cons.IH[OF Cons.prems(1) a b] show ?thesis using False by simp
  qed
qed

lemma length_cumsum_from [simp]: "length (cumsum_from rd acc xs) = length xs"
  by (induction xs arbitrary: acc) simp_all

lemma length_cumsum [simp]: "length (cumsum rd xs) = length xs"
  by (cases xs) (simp_all add: cumsum_def)

lemma argmax_bool_less: "bs \<noteq> [] \<Longrightarrow> argmax_bool bs < length bs"
  by (simp add: argmax_bool_def index_of_less)

lemma sample_row_less:
  assumes "row \<noteq> []"
  shows "sample_row rd row r < length row"
proof -
  let ?bs = "map (fl_less r) (cumsum rd (map (\<lambda>x. fl_div rd x (sum_list row)) row))"
  have "length ?bs = length row" by simp
  then have "?bs \<noteq> []" using assms by (metis length_0_conv)
  from argmax_bool_less[OF this] show ?thesis by (simp add: sample_row_def Let_def)
qed

lemma sample_row_pos:
  assumes "0 < sum_list row" "0 \<le> r" "r < 1"
  shows "sample_row id row r < length row \<and> 0 < row ! sample_row id row r"
proof -
  let ?s = "sum_list row"
  let ?bs = "map (fl_less r) (cumsum_from id (Fin 0) (map (\<lambda>x. Fin (x / ?s)) row))"
  have e: "sample_row id row r = argmax_bool ?bs"
    using assms(1) by (simp add: sample_row_def Let_def fl_div_fin cumsum_fin)
  have "r < 0 + ?s / ?s" using assms by simp
  from first_bin[OF assms(1) _ this] assms(2)
  have t: "True \<in> set ?bs" and p: "0 < row ! index_of True ?bs" by simp_all
  have "row \<noteq> []" using assms(1) by auto
  then have "sample_row id row r < length row" by (rule sample_row_less)
  moreover have "sample_row id row r = index_of True ?bs" using e t by (simp add: argmax_bool_def)
  ultimately show ?thesis using p by simp
qed

lemma sum_list_update_zero:
  "a < length xs \<Longrightarrow> sum_list (xs[a := 0]) = sum_list xs - (xs ! a :: real)"
proof (induction xs arbitrary: a)
  case Nil then show ?case by simp
next
  case (Cons x xs) then show ?case by (cases a) simp_all
qed

lemma nonneg_sum_pos:
  assumes "\<forall>x \<in> set xs. 0 \<le> (x::real)" "filter (\<lambda>x. x \<noteq> 0) xs \<noteq> []"
  shows "0 < sum_list xs"
proof -
  from assms(2) have "\<exists>x \<in> set xs. x \<noteq> 0" by (simp add: filter_empty_conv)
  then obtain x where x: "x \<in> set xs" "x \<noteq> 0" by blast
  have "0 \<le> x" using assms(1) x(1) by blast
  then have "0 < x" using x(2) by simp
  moreover have "x \<le> sum_list xs" by (rule member_le_sum_list[OF x(1)]) (use assms(1) in blast)
  ultimately show ?thesis by simp
qed

lemma other_entry:
  assumes "\<forall>x \<in> set xs. 0 \<le> (x::real)" "2 \<le> length (filter (\<lambda>x. x \<noteq> 0) xs)" "a < length xs"
  shows "xs ! a < sum_list xs"
  using assms
proof (induction xs arbitrary: a)
  case Nil then show ?case by simp
next
  case (Cons x xs)
  have nn: "\<forall>y \<in> set xs. 0 \<le> y" "0 \<le> x" using Cons.prems(1) by simp_all
  show ?case
  proof (cases a)
    case 0
    have "filter (\<lambda>x. x \<noteq> 0) xs \<noteq> []"
    proof
      assume "filter (\<lambda>x. x \<noteq> 0) xs = []"
      then have "length (filter (\<lambda>x. x \<noteq> 0) (x # xs)) \<le> 1" by simp
      then show False using Cons.prems(2) by simp
    qed
    from nonneg_sum_pos[OF nn(1) this] show ?thesis using 0 by simp
  next
    case (Suc a')
    then have a': "a' < length xs" using Cons.prems(3) by simp
    show ?thesis
    proof (cases "x = 0")
      case True
      then have "2 \<le> length (filter (\<lambda>x. x \<noteq> 0) xs)" using Cons.prems(2) by simp
      from Cons.IH[OF nn(1) this a'] show ?thesis using Suc True by simp
    next
      case False
      then have "0 < x" using nn(2) by simp
      moreover have "xs ! a' \<le> sum_list xs"
        using member_le_sum_list[of "xs ! a'" xs] nn(1) a' by simp
      ultimately show ?thesis using Suc by simp
    qed
  qed
qed

lemma row_pairs_differ:
  assumes d: "\<forall>x \<in> set d. 0 \<le> x" "2 \<le> length (filter (\<lambda>x. x \<noteq> 0) d)"
    and s: "\<forall>x \<in> set s. 0 \<le> x" "2 \<le> length (filter (\<lambda>x. x \<noteq> 0) s)"
    and l: "length s = length d"
    and r: "0 \<le> r1" "r1 < 1" "0 \<le> r2" "r2 < 1" "0 \<le> r3" "r3 < 1"
  shows "sample_row id (d[sample_row id d r1 := 0]) r2 \<noteq> sample_row id d r1 \<and>
         sample_row id (s[sample_row id d r1 := 0]) r3 \<noteq> sample_row id d r1"
proof -
  let ?a = "sample_row id d r1"
  have "filter (\<lambda>x. x \<noteq> 0) d \<noteq> []" using d(2) by auto
  from nonneg_sum_pos[OF d(1) this] have "0 < sum_list d" .
  from sample_row_pos[OF this r(1,2)] have a: "?a < length d" by simp
  have "0 < sum_list (d[?a := 0])"
    using other_entry[OF d a] by (simp add: sum_list_update_zero[OF a])
  from sample_row_pos[OF this r(3,4)] have "0 < (d[?a := 0]) ! sample_row id (d[?a := 0]) r2" by simp
  then have 1: "sample_row id (d[?a := 0]) r2 \<noteq> ?a" using a by auto
  have a': "?a < length s" using a l by simp
  have "0 < sum_list (s[?a := 0])"
    using other_entry[OF s a'] by (simp add: sum_list_update_zero[OF a'])
  from sample_row_pos[OF this r(5,6)] have "0 < (s[?a := 0]) ! sample_row id (s[?a := 0]) r3" by simp
  then have 2: "sample_row id (s[?a := 0]) r3 \<noteq> ?a" using a' by auto
  show ?thesis using 1 2 by simp
qed

lemma zero_at_ok:
  assumes "length anchors = length (mrows m)" "\<forall>a \<in> set anchors. a < ncols m"
  shows "zero_at m anchors =
           Inr (m\<lparr>mrows := map (\<lambda>(row, a). row[a := 0]) (zip (mrows m) anchors)\<rparr>)"
  using assms by (simp add: zero_at_def list_all_iff)

lemma samples_bound:
  assumes "wf_mat m" "0 < ncols m"
  shows "\<forall>a \<in> set (map (\<lambda>(i, row). sample_row rd row (u i)) (enumerate 0 (mrows m))). a < ncols m"
proof -
  have "sample_row rd row r < ncols m" if "row \<in> set (mrows m)" for row r
  proof -
    have "length row = ncols m" using assms(1) that by (simp add: wf_mat_def list_all_iff)
    moreover from this have "row \<noteq> []" using assms(2) by auto
    ultimately show ?thesis using sample_row_less[of row rd r] by simp
  qed
  then show ?thesis by (auto simp: in_set_enumerate_eq)
qed

lemma sample_card_pairs_result:
  assumes wf: "wf_mat decks" "wf_mat sideboards"
    and dims: "ncols sideboards = ncols decks" "length (mrows sideboards) = length (mrows decks)"
      "0 < ncols decks"
  shows "sample_card_pairs rd u1 u2 u3 decks sideboards =
     Inr (map (\<lambda>(i, row). sample_row rd row (u1 i)) (enumerate 0 (mrows decks)),
          map (\<lambda>(i, row). sample_row rd (row[sample_row rd row (u1 i) := 0]) (u2 i)) (enumerate 0 (mrows decks)),
          map (\<lambda>(i, row). sample_row rd (row[sample_row rd (mrows decks ! i) (u1 i) := 0]) (u3 i))
              (enumerate 0 (mrows sideboards)))"
proof -
  let ?anchors = "map (\<lambda>(i, row). sample_row rd row (u1 i)) (enumerate 0 (mrows decks))"
  have a: "get_vectorized_sample rd u1 decks = Inr ?anchors"
    by (rule get_vectorized_sample_ok[OF dims(3)])
  have la: "length ?anchors = length (mrows decks)" by simp
  have ba: "\<forall>a \<in> set ?anchors. a < ncols decks" by (rule samples_bound[OF wf(1) dims(3)])
  have zd: "zero_at decks ?anchors =
      Inr (decks\<lparr>mrows := map (\<lambda>(row, a). row[a := 0]) (zip (mrows decks) ?anchors)\<rparr>)"
    by (rule zero_at_ok[OF la ba])
  have zs: "zero_at sideboards ?anchors =
      Inr (sideboards\<lparr>mrows := map (\<lambda>(row, a). row[a := 0]) (zip (mrows sideboards) ?anchors)\<rparr>)"
    by (rule zero_at_ok) (use la ba dims in simp_all)
  have p: "map (\<lambda>(i, row). sample_row rd row (u2 i))
             (enumerate 0 (map (\<lambda>(row, a). row[a := 0]) (zip (mrows decks) ?anchors)))
        = map (\<lambda>(i, row). sample_row rd (row[sample_row rd row (u1 i) := 0]) (u2 i)) (enumerate 0 (mrows decks))"
    by (rule nth_equalityI) (simp_all add: nth_enumerate_eq)
  have n: "map (\<lambda>(i, row). sample_row rd row (u3 i))
             (enumerate 0 (map (\<lambda>(row, a). row[a := 0]) (zip (mrows sideboards) ?anchors)))
        = map (\<lambda>(i, row). sample_row rd (row[sample_row rd (mrows decks ! i) (u1 i) := 0]) (u3 i))
              (enumerate 0 (mrows sideboards))"
    by (rule nth_equalityI) (simp_all add: nth_enumerate_eq dims)
  show ?thesis
    unfolding sample_card_pairs_def a bnd_Inr zd zs
    using dims by (simp add: get_vectorized_sample_def p n)
qed

lemma deck_generate_data_samples:
  assumes "deck_generate_data rd u1 u2 u3 g is = Inr ((pools, anchor, pos, neg), (bas, decks), w)"
  shows "\<exists>deck sideboard sideboards.
           get_attr (attrs g) ''deck'' = Inr deck \<and> rows_at deck is = Inr decks \<and>
           get_attr (attrs g) ''sideboard'' = Inr sideboard \<and>
           rows_at sideboard is = Inr sideboards \<and>
           sample_card_pairs rd u1 u2 u3 decks sideboards = Inr (anchor, pos, neg)"
proof -
  from assms obtain deck where 1: "get_attr (attrs g) ''deck'' = Inr deck"
    unfolding deck_generate_data_def by (cases "get_attr (attrs g) ''deck''") simp_all
  from assms 1 obtain decks' where 2: "rows_at deck is = Inr decks'"
    unfolding deck_generate_data_def by (cases "rows_at deck is") simp_all
  from assms 1 2 obtain sideboard where 3: "get_attr (attrs g) ''sideboard'' = Inr sideboard"
    unfolding deck_generate_data_def by (cases "get_attr (attrs g) ''sideboard''") simp_all
  from assms 1 2 3 obtain sideboards where 4: "rows_at sideboard is = Inr sideboards"
    unfolding deck_generate_data_def by (cases "rows_at sideboard is") simp_all
  from assms 1 2 3 4 obtain db where 5: "get_attr (attrs g) ''deck_basics'' = Inr db"
    unfolding deck_generate_data_def by (cases "get_attr (attrs g) ''deck_basics''") simp_all
  from assms 1 2 3 4 5 obtain br where 6: "rows_at db is = Inr br"
    unfolding deck_generate_data_def by (cases "rows_at db is") simp_all
  from assms 1 2 3 4 5 6 obtain pl where 7: "mat_add decks' sideboards = Inr pl"
    unfolding deck_generate_data_def by (cases "mat_add decks' sideboards") simp_all
  from assms 1 2 3 4 5 6 7 obtain w' where 8: "batch_weights rd (weights g) is = Inr w'"
    unfolding deck_generate_data_def by (cases "batch_weights rd (weights g) is") simp_all
  from assms 1 2 3 4 5 6 7 8 obtain tr where 9: "sample_card_pairs rd u1 u2 u3 decks' sideboards = Inr tr"
    unfolding deck_generate_data_def by (cases "sample_card_pairs rd u1 u2 u3 decks' sideboards") simp_all
  from assms 1 2 3 4 5 6 7 8 9 have "decks' = decks \<and> tr = (anchor, pos, neg)"
    unfolding deck_generate_data_def by (cases tr) auto
  then show ?thesis using 1 2 3 4 9 by blast
qed

lemma deck_generate_data_weights:
  assumes "deck_generate_data rd u1 u2 u3 g is = Inr (X, y, w)"
  shows "batch_weights rd (weights g) is = Inr w"
proof -
  from assms obtain deck where 1: "get_attr (attrs g) ''deck'' = Inr deck"
    unfolding deck_generate_data_def by (cases "get_attr (attrs g) ''deck''") simp_all
  from assms 1 obtain decks' where 2: "rows_at deck is = Inr decks'"
    unfolding deck_generate_data_def by (cases "rows_at deck is") simp_all
  from assms 1 2 obtain sideboard where 3: "get_attr (attrs g) ''sideboard'' = Inr sideboard"
    unfolding deck_generate_data_def by (cases "get_attr (attrs g) ''sideboard''") simp_all
  from assms 1 2 3 obtain sideboards where 4: "rows_at sideboard is = Inr sideboards"
    unfolding deck_generate_data_def by (cases "rows_at sideboard is") simp_all
  from assms 1 2 3 4 obtain db where 5: "get_attr (attrs g) ''deck_basics'' = Inr db"
    unfolding deck_generate_data_def by (cases "get_attr (attrs g) ''deck_basics''") simp_all
  from assms 1 2 3 4 5 obtain br where 6: "rows_at db is = Inr br"
    unfolding deck_generate_data_def by (cases "rows_at db is") simp_all
  from assms 1 2 3 4 5 6 obtain pl where 7: "mat_add decks' sideboards = Inr pl"
    unfolding deck_generate_data_def by (cases "mat_add decks' sideboards") simp_all
  from assms 1 2 3 4 5 6 7 obtain w' where 8: "batch_weights rd (weights g) is = Inr w'"
    unfolding deck_generate_data_def by (cases "batch_weights rd (weights g) is") simp_all
  from assms 1 2 3 4 5 6 7 8 obtain tr where 9: "sample_card_pairs rd u1 u2 u3 decks' sideboards = Inr tr"
    unfolding deck_generate_data_def by (cases "sample_card_pairs rd u1 u2 u3 decks' sideboards") simp_all
  from assms 1 2 3 4 5 6 7 8 9 have "w' = w"
    unfolding deck_generate_data_def by (cases tr) auto
  then show ?thesis using 8 by simp
qed

subsection \<open>Sample weights\<close>

lemma batch_weights_sum:
  assumes "batch_weights id (Some v) is = Inr w" "is \<noteq> []" "\<forall>x \<in> set v. 0 < x"
  shows "\<exists>vs. w = Some (map Fin vs) \<and>
               vs = map (\<lambda>i. v ! i / sum_list (map (\<lambda>j. v ! j) is)) is \<and> sum_list vs = 1"
proof -
  let ?sel = "map (\<lambda>i. v ! i) is"
  have b: "\<forall>i \<in> set is. i < length v"
    using assms(1) by (auto simp: batch_weights_def take_at_def list_all_iff split: if_splits)
  then have t: "take_at v is = Inr ?sel" by (rule take_at_ok)
  have w: "w = Some (map (\<lambda>x. fl_div id x (sum_list ?sel)) ?sel)"
    using assms(1) by (simp add: batch_weights_def t)
  have "\<forall>x \<in> set ?sel. 0 \<le> x" using b assms(3) by (auto intro: less_imp_le)
  moreover have "filter (\<lambda>x. x \<noteq> 0) ?sel \<noteq> []"
  proof -
    obtain i where "i \<in> set is" using assms(2) by (cases "is") auto
    then have m: "v ! i \<in> set ?sel" and "i < length v" using b by auto
    then have "v ! i \<in> set v" by simp
    then have "0 < v ! i" using assms(3) by blast
    then have "v ! i \<in> set ?sel" "v ! i \<noteq> 0" using m by simp_all
    then show ?thesis by (auto simp: filter_empty_conv)
  qed
  ultimately have s: "0 < sum_list ?sel" by (rule nonneg_sum_pos)
  let ?vs = "map (\<lambda>i. v ! i / sum_list ?sel) is"
  have 1: "w = Some (map Fin ?vs)" using w s by (simp add: fl_div_def comp_def)
  have "sum_list ?vs = sum_list (map (\<lambda>i. (1 / sum_list ?sel) * v ! i) is)" by simp
  also have "\<dots> = (1 / sum_list ?sel) * sum_list ?sel" by (simp only: sum_list_const_mult)
  also have "\<dots> = 1" using s by simp
  finally have 2: "sum_list ?vs = 1" .
  show ?thesis using 1 2 by blast
qed

lemma batch_weights_none: "batch_weights rd None is = Inr w \<Longrightarrow> w = None"
  by (auto simp: batch_weights_def)

lemma getitem_Fit:
  assumes "getitem gen_data g b = Inr (Fit X y w)"
  shows "gen_data g (batch_indices g b) = Inr (X, y, w)"
proof -
  from assms obtain tr where t: "gen_data g (batch_indices g b) = Inr tr"
    unfolding getitem_def by (cases "gen_data g (batch_indices g b)") simp_all
  obtain X' y' w' where tr: "tr = (X', y', w')" by (cases tr) auto
  from assms t tr have "X' = X \<and> y' = y \<and> w' = w"
    unfolding getitem_def by (simp split: if_splits)
  then show ?thesis using t tr by simp
qed

lemma valid_batch_nonempty:
  assumes "len_gen g = Inr n" "0 \<le> b" "b < n" "length (indices g) = size_g g"
  shows "batch_indices g b \<noteq> []"
proof -
  have nz: "batch_size g \<noteq> 0" and n: "n = int (size_g g) div batch_size g"
    using assms(1) by (auto simp: len_gen_def split: if_splits)
  have "0 < n" using assms(2,3) by simp
  have pos: "0 < batch_size g"
  proof (rule ccontr)
    assume "\<not> 0 < batch_size g"
    then have "batch_size g < 0" using nz by simp
    then have "int (size_g g) div batch_size g \<le> 0" by (intro div_nonneg_neg_le0) simp_all
    then show False using \<open>0 < n\<close> n by simp
  qed
  from complete_batches[OF pos assms(4) assms(2)] assms(3) n
  have "int (length (batch_indices g b)) = batch_size g" by simp
  then show ?thesis using pos by auto
qed

lemma draft_generate_data_weights:
  assumes "draft_generate_data rd g is = Inr (X, y, w)"
  shows "batch_weights rd (weights g) is = Inr w"
  using assms unfolding draft_generate_data_def bnd_Inr_iff by auto

subsection \<open>Draft batches\<close>

lemma length_chunks [simp]: "length (chunks m n xs) = m"
  by (induction m arbitrary: xs) simp_all

lemma chunks_elem:
  "length xs = m * n \<Longrightarrow> \<forall>ch \<in> set (chunks m n xs). length ch = n"
proof (induction m arbitrary: xs)
  case 0 then show ?case by simp
next
  case (Suc m)
  have "length (drop n xs) = m * n" using Suc.prems by simp
  from Suc.IH[OF this] show ?case using Suc.prems by simp
qed

lemma chunk3_shape:
  assumes "length flat = k * t * c"
  shows "has_shape3 (chunk3 flat k t c) k t c"
proof -
  have "length flat = k * (t * c)" using assms by (simp add: mult.assoc)
  from chunks_elem[OF this] have e: "\<forall>ch \<in> set (chunks k (t * c) flat). length ch = t * c" .
  have "length (chunks t c ch) = t \<and> (\<forall>v \<in> set (chunks t c ch). length v = c)"
    if "ch \<in> set (chunks k (t * c) flat)" for ch
  proof -
    have "length ch = t * c" using e that by blast
    from chunks_elem[OF this] show ?thesis by simp
  qed
  then have "\<forall>ch \<in> set (chunks k (t * c) flat).
          length (chunks t c ch) = t \<and> (\<forall>v \<in> set (chunks t c ch). length v = c)"
    by blast
  then show ?thesis by (simp add: has_shape3_def chunk3_def list_all_iff)
qed

lemma reshape3_ok:
  assumes "length flat = k * t * c"
  shows "\<exists>x. reshape3 flat k (Fin (real t)) c = Inr x \<and> has_shape3 x k t c"
proof -
  have f: "\<lfloor>real t\<rfloor> = int t" by simp
  have "reshape3 flat k (Fin (real t)) c = Inr (chunk3 flat k t c)"
    unfolding reshape3_def using assms by (simp add: f)
  then show ?thesis using chunk3_shape[OF assms] by simp
qed

lemma concat_last_shape:
  assumes "has_shape3 a k t c" "has_shape3 b k t c'"
  shows "has_shape3 (concat_last a b) k t (c + c')"
proof -
  have "length p' = t \<and> (\<forall>v \<in> set p'. length v = c + c')"
    if "p' \<in> set (concat_last a b)" for p'
  proof -
    from that obtain p q where pq: "(p, q) \<in> set (zip a b)"
      and p': "p' = map (\<lambda>(x, y). x @ y) (zip p q)"
      by (auto simp: concat_last_def)
    have p: "p \<in> set a" and q: "q \<in> set b" using pq by (auto dest: set_zip_leftD set_zip_rightD)
    have lp: "length p = t" "\<forall>v \<in> set p. length v = c"
      using assms(1) p by (auto simp: has_shape3_def list_all_iff)
    have lq: "length q = t" "\<forall>v \<in> set q. length v = c'"
      using assms(2) q by (auto simp: has_shape3_def list_all_iff)
    have "length p' = t" using p' lp lq by simp
    moreover have "length v = c + c'" if "v \<in> set p'" for v
    proof -
      from that p' obtain x y where xy: "(x, y) \<in> set (zip p q)" and v: "v = x @ y" by auto
      have "x \<in> set p" "y \<in> set q" using xy by (auto dest: set_zip_leftD set_zip_rightD)
      then show ?thesis using v lp(2) lq(2) by simp
    qed
    ultimately show ?thesis by simp
  qed
  moreover have "length (concat_last a b) = k"
    using assms by (simp add: concat_last_def has_shape3_def)
  ultimately show ?thesis by (simp add: has_shape3_def list_all_iff)
qed

lemma map3_shape:
  "has_shape3 x k t c \<Longrightarrow> has_shape3 (map (map (map f)) x) k t c"
  by (auto simp: has_shape3_def list_all_iff)

lemma length_filter_zip_fst:
  "length vals = length labels \<Longrightarrow>
   length (filter (\<lambda>(l, v). l = k) (zip labels vals)) = length (filter (\<lambda>l. l = k) labels)"
proof (induction labels arbitrary: vals)
  case Nil then show ?case by simp
next
  case (Cons l labels)
  then obtain v vs where "vals = v # vs" by (cases vals) auto
  then show ?case using Cons by simp
qed

lemma loc_rows_ok:
  assumes "\<forall>k \<in> set keys. k \<in> set labels"
  shows "loc_rows labels vals keys =
     Inr (concat (map (\<lambda>k. map snd (filter (\<lambda>(l, v). l = k) (zip labels vals))) keys))"
  using assms by (simp add: loc_rows_def list_all_iff)

lemma length_loc:
  assumes "length vals = length labels" "\<forall>k \<in> set keys. length (filter (\<lambda>l. l = k) labels) = t"
  shows "length (concat (map (\<lambda>k. map snd (filter (\<lambda>(l, v). l = k) (zip labels vals))) keys))
           = length keys * t"
  using assms(2)
proof (induction keys)
  case Nil then show ?case by simp
next
  case (Cons k keys)
  then show ?case using length_filter_zip_fst[OF assms(1), of k] by simp
qed

lemma length_concat_const:
  "\<forall>r \<in> set rs. length r = c \<Longrightarrow> length (concat rs) = length rs * c"
  by (induction rs) simp_all

lemma loc_2d:
  assumes "length vals = length labels" "\<forall>k \<in> set keys. k \<in> set labels"
    "\<forall>k \<in> set keys. length (filter (\<lambda>l. l = k) labels) = t"
    "\<forall>r \<in> set vals. length r = c"
  shows "\<exists>rs. loc_rows labels vals keys = Inr rs \<and> length (concat rs) = length keys * t * c"
proof -
  let ?rs = "concat (map (\<lambda>k. map snd (filter (\<lambda>(l, v). l = k) (zip labels vals))) keys)"
  have 1: "loc_rows labels vals keys = Inr ?rs" by (rule loc_rows_ok[OF assms(2)])
  have 2: "length ?rs = length keys * t" by (rule length_loc[OF assms(1,3)])
  have "\<forall>r \<in> set ?rs. r \<in> set vals" by (auto dest!: set_zip_rightD)
  then have "\<forall>r \<in> set ?rs. length r = c" using assms(4) by blast
  from length_concat_const[OF this] have "length (concat ?rs) = length keys * t * c"
    using 2 by simp
  then show ?thesis using 1 by blast
qed

lemma loc_1d:
  assumes "length vals = length labels" "\<forall>k \<in> set keys. k \<in> set labels"
    "\<forall>k \<in> set keys. length (filter (\<lambda>l. l = k) labels) = t"
  shows "\<exists>rs. loc_rows labels vals keys = Inr rs \<and> length rs = length keys * t * 1"
  using loc_rows_ok[OF assms(2), of vals] length_loc[OF assms(1,3)] by simp

lemma draft_generate_data_shapes:
  assumes idx: "\<forall>i \<in> set is. i < length (draft_ids g)"
    and sub: "set (draft_ids g) \<subseteq> set ids"
    and cnt: "\<forall>i \<in> set is. length (filter (\<lambda>l. l = draft_ids g ! i) ids) = t"
    and pc: "frames g ''pack_card'' = Some pc" "flabels pc = ids"
      "length (fvalues pc) = length ids" "\<forall>r \<in> set (fvalues pc). length r = length (fcolumns pc)"
    and pl: "frames g ''pool'' = Some pl" "flabels pl = ids"
      "length (fvalues pl) = length ids" "\<forall>r \<in> set (fvalues pl). length r = length (fcolumns pc)"
    and pk: "fst (pick g) = ids" "length (snd (pick g)) = length ids"
    and ps: "fst (position g) = ids" "length (snd (position g)) = length ids"
    and t: "t_len g = Fin (real t)"
    and w: "case weights g of None \<Rightarrow> True | Some v \<Rightarrow> length (draft_ids g) \<le> length v"
  shows "\<exists>feats poss picks wout.
           draft_generate_data rd g is = Inr ((feats, poss), picks, wout) \<and>
           has_shape3 feats (length is) t (2 * length (fcolumns pc)) \<and>
           has_shape3 picks (length is) t 1 \<and> has_shape3 poss (length is) t 1"
proof -
  let ?dids = "map (\<lambda>i. draft_ids g ! i) is"
  let ?k = "length is" and ?c = "length (fcolumns pc)"
  have 1: "take_at (draft_ids g) is = Inr ?dids" by (rule take_at_ok[OF idx])
  have mem: "\<forall>k \<in> set ?dids. k \<in> set ids" using idx sub by auto
  have cn: "\<forall>k \<in> set ?dids. length (filter (\<lambda>l. l = k) ids) = t" using cnt by auto
  have lk: "length ?dids = ?k" by simp
  from loc_2d[OF pc(3) mem cn pc(4)] obtain prs where
    2: "loc_rows ids (fvalues pc) ?dids = Inr prs" "length (concat prs) = ?k * t * ?c" by auto
  from reshape3_ok[OF 2(2)] obtain packs where
    3: "reshape3 (concat prs) ?k (Fin (real t)) ?c = Inr packs" "has_shape3 packs ?k t ?c" by blast
  from loc_2d[OF pl(3) mem cn pl(4)] obtain qrs where
    4: "loc_rows ids (fvalues pl) ?dids = Inr qrs" "length (concat qrs) = ?k * t * ?c" by auto
  from reshape3_ok[OF 4(2)] obtain pools where
    5: "reshape3 (concat qrs) ?k (Fin (real t)) ?c = Inr pools" "has_shape3 pools ?k t ?c" by blast
  from loc_1d[OF pk(2) mem cn] obtain kv where
    6: "loc_rows ids (snd (pick g)) ?dids = Inr kv" "length kv = ?k * t * 1" by auto
  from reshape3_ok[OF 6(2)] obtain picks where
    7: "reshape3 kv ?k (Fin (real t)) 1 = Inr picks" "has_shape3 picks ?k t 1" by blast
  from loc_1d[OF ps(2) mem cn] obtain pv where
    8: "loc_rows ids (snd (position g)) ?dids = Inr pv" "length pv = ?k * t * 1" by auto
  from reshape3_ok[OF 8(2)] obtain positions where
    9: "reshape3 pv ?k (Fin (real t)) 1 = Inr positions" "has_shape3 positions ?k t 1" by blast
  have "\<exists>wout. batch_weights rd (weights g) is = Inr wout"
  proof (cases "weights g")
    case None then show ?thesis by (simp add: batch_weights_def)
  next
    case (Some v)
    then have "\<forall>i \<in> set is. i < length v" using w idx by fastforce
    from take_at_ok[OF this] show ?thesis using Some by (simp add: batch_weights_def)
  qed
  then obtain wout where 10: "batch_weights rd (weights g) is = Inr wout" by blast
  have r: "draft_generate_data rd g is =
      Inr ((concat_last packs pools, map (map (map astype_int32)) positions),
           map (map (map astype_int32)) picks, wout)"
    unfolding draft_generate_data_def
    by (simp add: 1 get_attr_def pc(1,2) pl(1,2) pk(1) ps(1) t 2(1) 3(1) 4(1) 5(1) 6(1)
          7(1)[unfolded One_nat_def] 8(1) 9(1)[unfolded One_nat_def] 10)
  have "has_shape3 (concat_last packs pools) ?k t (?c + ?c)"
    by (rule concat_last_shape[OF 3(2) 5(2)])
  then have s1: "has_shape3 (concat_last packs pools) ?k t (2 * ?c)" by (simp add: mult_2)
  show ?thesis using r s1 map3_shape[OF 7(2)] map3_shape[OF 9(2)] by blast
qed

lemma length_select_row:
  "length r = length cols \<Longrightarrow>
   length (filter (\<lambda>(c, v). P c) (zip cols r)) = length (filter P cols)"
proof (induction cols arbitrary: r)
  case Nil then show ?case by simp
next
  case (Cons c cols)
  then obtain v vs where "r = v # vs" by (cases r) auto
  then show ?case using Cons by simp
qed

lemma select_rows_row_length:
  assumes "\<forall>r \<in> set (rows d). length r = length (columns d)"
  shows "\<forall>r \<in> set (select_rows P d). length r = length (filter P (columns d))"
  using assms by (auto simp: select_rows_def length_select_row)

lemma drop_col_rows:
  assumes "\<forall>r \<in> set (rows d). length r = length (columns d)"
  shows "\<forall>r \<in> set (rows (drop_col name d)). length r = length (columns (drop_col name d))"
  using select_rows_row_length[OF assms, of "\<lambda>c. c \<noteq> name"] by (simp add: drop_col_def)

lemma length_rows_drop_col [simp]: "length (rows (drop_col name d)) = length (rows d)"
  by (simp add: drop_col_def)

lemma get_col_length: "get_col d name = Inr v \<Longrightarrow> length v = length (rows d)"
  by (auto simp: get_col_def split: if_splits)

lemma length_unique_le: "length (unique xs) \<le> length xs"
  by (metis unique_set unique_distinct distinct_card card_length)

subsection \<open>Train and validation generators\<close>

lemma py_len_pos: "py_len g = Inr n \<Longrightarrow> 0 \<le> n"
  by (cases "len_gen g") (auto simp: py_len_def split: if_splits)

lemma create_val_batch_size:
  assumes ok: "\<And>d c b s f e r g. generator d c b s f e r = Inr g \<Longrightarrow> batch_size g = b"
    and c: "create_train_and_val_gens generator data cs id_col train_p use_w tbs shuf fit excl
              iw chosen rt rv = Inr (tg, Some vg)"
  shows "\<exists>data1 train_data td n.
           (if use_w then set_col ''ml_weights'' iw data else Inr data) = Inr data1 \<and>
           split_train_test data1 id_col train_p chosen = Inr (train_data, Some td) \<and>
           generator train_data cs tbs shuf fit excl rt = Inr tg \<and>
           py_len tg = Inr n \<and> 0 < n \<and>
           batch_size vg = int (length (rows td)) div n \<and>
           (batch_size vg < 1 \<longleftrightarrow> int (length (rows td)) < n)"
proof -
  from c obtain data1 where 1: "(if use_w then set_col ''ml_weights'' iw data else Inr data) = Inr data1"
    unfolding create_train_and_val_gens_def
    by (cases "if use_w then set_col ''ml_weights'' iw data else Inr data") simp_all
  from c 1 obtain sp where 2: "split_train_test data1 id_col train_p chosen = Inr sp"
    unfolding create_train_and_val_gens_def
    by (cases "split_train_test data1 id_col train_p chosen") simp_all
  obtain train_data test_data where sp: "sp = (train_data, test_data)" by (cases sp) auto
  from c 1 2 sp obtain tg' where 3: "generator train_data cs tbs shuf fit excl rt = Inr tg'"
    unfolding create_train_and_val_gens_def
    by (cases "generator train_data cs tbs shuf fit excl rt") simp_all
  from c 1 2 sp 3 obtain td where 4: "test_data = Some td"
    unfolding create_train_and_val_gens_def by (cases test_data) simp_all
  from c 1 2 sp 3 4 obtain n where 5: "py_len tg' = Inr n"
    unfolding create_train_and_val_gens_def by (cases "py_len tg'") simp_all
  from c 1 2 sp 3 4 5 have 6: "n \<noteq> 0"
    unfolding create_train_and_val_gens_def by (auto split: if_splits)
  from c 1 2 sp 3 4 5 6 obtain vg' where
    7: "generator td cs (int (length (rows td)) div n) shuf fit excl rv = Inr vg'"
    unfolding create_train_and_val_gens_def
    by (cases "generator td cs (int (length (rows td)) div n) shuf fit excl rv")
       (simp_all add: Let_def)
  from c 1 2 sp 3 4 5 6 7 have 8: "tg' = tg" "vg' = vg"
    unfolding create_train_and_val_gens_def by (simp_all add: Let_def)
  have n: "0 < n" using py_len_pos[OF 5] 6 by simp
  have b: "batch_size vg = int (length (rows td)) div n" using ok[OF 7] 8 by simp
  have "1 \<le> int (length (rows td)) div n \<longleftrightarrow> 1 * n \<le> int (length (rows td))"
    by (rule int_le_div_iff[OF n])
  then have z: "batch_size vg < 1 \<longleftrightarrow> int (length (rows td)) < n" using b by auto
  show ?thesis using 1 2 sp 3 4 5 8 n b z by auto
qed

lemma create_zero_batches:
  assumes "(if use_w then set_col ''ml_weights'' iw data else Inr data) = Inr data1"
    "split_train_test data1 id_col train_p chosen = Inr (train_data, Some td)"
    "generator train_data cs tbs shuf fit excl rt = Inr tg" "py_len tg = Inr 0"
  shows "create_train_and_val_gens generator data cs id_col train_p use_w tbs shuf fit excl
              iw chosen rt rv = Inl ZeroDivisionError"
  unfolding create_train_and_val_gens_def using assms by simp

lemma deck_class_batch_size: "deck_class d c b s f e r = Inr g \<Longrightarrow> batch_size g = b"
  unfolding deck_class_def by (rule DeckGenerator_init_fields(2))

lemma draft_class_batch_size: "draft_class d c b s f e r = Inr g \<Longrightarrow> batch_size g = b"
  unfolding draft_class_def using DraftGenerator_init_fields by blast

section \<open>The claims\<close>

text \<open>
  C1. For the base, deck and draft generators \<^verbatim>\<open>__len__\<close> is the floor of the total size
  divided by the batch size, the total size being the row count of the table for the base
  and deck generators and the number of distinct draft ids for the draft generator. With
  a positive batch size, a batch number from 0 on selects a complete batch of
  \<open>batch_size\<close> indices exactly when it is below that count, so the index permutation never
  holds more than \<^verbatim>\<open>__len__\<close> batches; every index of a draft batch names a draft.
\<close>

theorem batch_count_floor:
  assumes "bs \<noteq> 0"
  shows "(MTGDataGenerator_init generate_global_data blank data cs pfxs bs shuf fit excl store rnd = Inr g \<longrightarrow>
            len_gen g = Inr \<lfloor>real (length (rows data)) / real_of_int bs\<rfloor> \<and>
            (0 < bs \<longrightarrow> (\<forall>b\<ge>0. int (length (batch_indices g b)) = bs \<longleftrightarrow>
                                 b < \<lfloor>real (length (rows data)) / real_of_int bs\<rfloor>))) \<and>
         (DeckGenerator_init data cs bs shuf fit excl store rnd = Inr dg \<longrightarrow>
            len_gen dg = Inr \<lfloor>real (length (rows data)) / real_of_int bs\<rfloor> \<and>
            (0 < bs \<longrightarrow> (\<forall>b\<ge>0. int (length (batch_indices dg b)) = bs \<longleftrightarrow>
                                 b < \<lfloor>real (length (rows data)) / real_of_int bs\<rfloor>))) \<and>
         (DraftGenerator_init data cs bs shuf fit excl store rnd rnd2 = Inr fg \<longrightarrow>
            (\<exists>ids. draft_id data = Some ids \<and>
               len_gen fg = Inr \<lfloor>real (card (set ids)) / real_of_int bs\<rfloor> \<and>
               (0 < bs \<longrightarrow> (\<forall>b\<ge>0. int (length (batch_indices fg b)) = bs \<longleftrightarrow>
                                   b < \<lfloor>real (card (set ids)) / real_of_int bs\<rfloor>)) \<and>
               (\<forall>b. \<forall>i \<in> set (batch_indices fg b). i < length (draft_ids fg))))"
proof (intro conjI impI)
  assume a: "MTGDataGenerator_init generate_global_data blank data cs pfxs bs shuf fit excl store rnd = Inr g"
  have l: "length (indices g) = size_g g" using Base_init_fields[OF a] by (simp add: np_shuffle_length)
  have b: "batch_size g \<noteq> 0" using Base_init_fields[OF a] assms by simp
  from len_and_batches[OF b l] Base_init_fields(1,2)[OF a]
  show "len_gen g = Inr \<lfloor>real (length (rows data)) / real_of_int bs\<rfloor>" by simp
  assume "0 < bs"
  with len_and_batches[OF b l] Base_init_fields(1,2)[OF a]
  show "\<forall>b\<ge>0. int (length (batch_indices g b)) = bs \<longleftrightarrow>
                 b < \<lfloor>real (length (rows data)) / real_of_int bs\<rfloor>" by simp
next
  assume a: "DeckGenerator_init data cs bs shuf fit excl store rnd = Inr dg"
  have l: "length (indices dg) = size_g dg" by (rule Deck_indices_length[OF a])
  have b: "batch_size dg \<noteq> 0" using DeckGenerator_init_fields(2)[OF a] assms by simp
  from len_and_batches[OF b l] DeckGenerator_init_fields(2,3)[OF a]
  show "len_gen dg = Inr \<lfloor>real (length (rows data)) / real_of_int bs\<rfloor>" by simp
  assume "0 < bs"
  with len_and_batches[OF b l] DeckGenerator_init_fields(2,3)[OF a]
  show "\<forall>b\<ge>0. int (length (batch_indices dg b)) = bs \<longleftrightarrow>
                 b < \<lfloor>real (length (rows data)) / real_of_int bs\<rfloor>" by simp
next
  assume a: "DraftGenerator_init data cs bs shuf fit excl store rnd rnd2 = Inr fg"
  from DraftGenerator_init_fields[OF a] obtain ids where
    f: "draft_id data = Some ids" "draft_ids fg = unique ids" "size_g fg = length (unique ids)" "batch_size fg = bs"
    by blast
  have l: "length (indices fg) = size_g fg" by (rule Draft_indices_length[OF a])
  have b: "batch_size fg \<noteq> 0" using f assms by simp
  have s: "size_g fg = card (set ids)" using f by (simp add: length_unique)
  have 1: "len_gen fg = Inr \<lfloor>real (card (set ids)) / real_of_int bs\<rfloor>"
    using len_and_batches[OF b l] f(4) s by simp
  have 2: "0 < bs \<longrightarrow> (\<forall>b\<ge>0. int (length (batch_indices fg b)) = bs \<longleftrightarrow>
                                   b < \<lfloor>real (card (set ids)) / real_of_int bs\<rfloor>)"
    using len_and_batches[OF b l] f(4) s by simp
  have 3: "\<forall>b. \<forall>i \<in> set (batch_indices fg b). i < length (draft_ids fg)"
    using indices_bound[OF Draft_indices_perm[OF a]] f by simp
  show "\<exists>ids. draft_id data = Some ids \<and>
               len_gen fg = Inr \<lfloor>real (card (set ids)) / real_of_int bs\<rfloor> \<and>
               (0 < bs \<longrightarrow> (\<forall>b\<ge>0. int (length (batch_indices fg b)) = bs \<longleftrightarrow>
                                   b < \<lfloor>real (card (set ids)) / real_of_int bs\<rfloor>)) \<and>
               (\<forall>b. \<forall>i \<in> set (batch_indices fg b). i < length (draft_ids fg))"
    using f(1) 1 2 3 by blast
qed

theorem batch_count_floor_witness:
  "(2::int) \<noteq> 0 \<and> (1::int) \<noteq> 0 \<and>
   MTGDataGenerator_init generate_global_data blank deck_data_ex cards3_ex [''deck'']
     2 False True False False rnd_ex = Inr base_gen_ex \<and>
   len_gen base_gen_ex = Inr 2 \<and> int (length (batch_indices base_gen_ex 1)) = 2 \<and>
   int (length (batch_indices base_gen_ex 2)) \<noteq> 2 \<and>
   DraftGenerator_init draft_data_ex cards_ex 1 False True False False rnd_ex rnd_ex = Inr draft_gen_ex \<and>
   len_gen draft_gen_ex = Inr 1 \<and> int (length (batch_indices draft_gen_ex 0)) = 1 \<and>
   list_all (\<lambda>i. i < length (draft_ids draft_gen_ex)) (batch_indices draft_gen_ex 0)"
proof -
  have f: "\<lfloor>real (length (rows deck_data_ex)) / real_of_int 2\<rfloor> = 2"
    by (simp add: deck_data_ex_def)
  have d: "draft_id draft_data_ex = Some [''d1'', ''d1'']" by (simp add: draft_data_ex_def)
  from batch_count_floor[of 2 deck_data_ex cards3_ex "[''deck'']" False True False False rnd_ex
         base_gen_ex undefined undefined undefined]
  have b: "len_gen base_gen_ex = Inr 2 \<and> int (length (batch_indices base_gen_ex 1)) = 2 \<and>
           int (length (batch_indices base_gen_ex 2)) \<noteq> 2"
    using base_gen_ex_init unfolding f by simp
  from batch_count_floor[of 1 draft_data_ex cards_ex undefined False True False False rnd_ex
         undefined undefined rnd_ex draft_gen_ex]
  have "len_gen draft_gen_ex = Inr 1 \<and> int (length (batch_indices draft_gen_ex 0)) = 1 \<and>
        list_all (\<lambda>i. i < length (draft_ids draft_gen_ex)) (batch_indices draft_gen_ex 0)"
    using draft_gen_ex_init d by (simp add: list_all_iff)
  then show ?thesis using b base_gen_ex_init draft_gen_ex_init by simp
qed

text \<open>
  C5. Every call of \<^verbatim>\<open>on_epoch_end\<close> leaves a permutation of \<open>range(size)\<close> in
  \<open>indices\<close>, whatever the shuffle draws, and the identity ordering when shuffling is off;
  so do the constructors of the deck and the draft generator.
\<close>

theorem epoch_reset_permutation:
  "mset (indices (on_epoch_end rnd g)) = mset [0 ..< size_g (on_epoch_end rnd g)] \<and>
   (\<not> shuffle g \<longrightarrow> indices (on_epoch_end rnd g) = [0 ..< size_g g]) \<and>
   (DeckGenerator_init data cs bs shuf fit excl store rnd1 = Inr dg \<longrightarrow>
      mset (indices dg) = mset [0 ..< size_g dg] \<and> (\<not> shuf \<longrightarrow> indices dg = [0 ..< size_g dg])) \<and>
   (DraftGenerator_init data cs bs shuf fit excl store rnd1 rnd2 = Inr fg \<longrightarrow>
      mset (indices fg) = mset [0 ..< size_g fg] \<and> (\<not> shuf \<longrightarrow> indices fg = [0 ..< size_g fg]))"
proof (intro conjI impI)
  show "mset (indices (on_epoch_end rnd g)) = mset [0 ..< size_g (on_epoch_end rnd g)]"
    by (simp add: on_epoch_end_def reset_indices_perm reset_indices_size)
  show "indices (on_epoch_end rnd g) = [0 ..< size_g g]" if "\<not> shuffle g"
    using that by (simp add: on_epoch_end_def reset_indices_identity)
next
  assume a: "DeckGenerator_init data cs bs shuf fit excl store rnd1 = Inr dg"
  show "mset (indices dg) = mset [0 ..< size_g dg]" by (rule Deck_indices_perm[OF a])
  show "indices dg = [0 ..< size_g dg]" if "\<not> shuf"
    using that DeckGenerator_init_fields(3,7)[OF a] by simp
next
  assume a: "DraftGenerator_init data cs bs shuf fit excl store rnd1 rnd2 = Inr fg"
  show "mset (indices fg) = mset [0 ..< size_g fg]" by (rule Draft_indices_perm[OF a])
  show "indices fg = [0 ..< size_g fg]" if "\<not> shuf"
    using that DraftGenerator_init_fields[OF a] by auto
qed

theorem epoch_reset_permutation_witness:
  "mset (indices (on_epoch_end rnd_ex deck_gen_ex)) = mset [0, 1, 2, 3, 4] \<and>
   indices (on_epoch_end rnd_ex deck_gen_ex) = [1, 2, 3, 4, 0] \<and>
   \<not> shuffle draft_gen_ex \<and> indices (on_epoch_end rnd_ex draft_gen_ex) = [0] \<and>
   DeckGenerator_init deck_data_ex cards3_ex 2 True True False True rnd_ex = Inr deck_gen_ex \<and>
   mset (indices deck_gen_ex) = mset [0, 1, 2, 3, 4] \<and>
   DraftGenerator_init draft_data_ex cards_ex 1 False True False False rnd_ex rnd_ex = Inr draft_gen_ex \<and>
   indices draft_gen_ex = [0]"
proof -
  have s: "size_g deck_gen_ex = 5" "size_g draft_gen_ex = 1" "\<not> shuffle draft_gen_ex"
    "indices (on_epoch_end rnd_ex deck_gen_ex) = [1, 2, 3, 4, 0]"
    by code_simp+
  have u: "[0 ..< 5] = [0, 1, 2, 3, 4]" "[0 ..< 1] = [0]" by code_simp+
  from epoch_reset_permutation[of rnd_ex deck_gen_ex deck_data_ex cards3_ex 2 True True False
         True rnd_ex deck_gen_ex undefined undefined]
  have 1: "mset (indices (on_epoch_end rnd_ex deck_gen_ex)) = mset [0, 1, 2, 3, 4] \<and>
           mset (indices deck_gen_ex) = mset [0, 1, 2, 3, 4]"
    using deck_gen_ex_init s(1) u(1) by (simp add: on_epoch_end_def reset_indices_size)
  from epoch_reset_permutation[of rnd_ex draft_gen_ex draft_data_ex cards_ex 1 False True False
         False rnd_ex undefined rnd_ex draft_gen_ex]
  have 2: "indices (on_epoch_end rnd_ex draft_gen_ex) = [0] \<and> indices draft_gen_ex = [0]"
    using draft_gen_ex_init s(2,3) u(2) by simp
  show ?thesis using 1 2 s(3,4) deck_gen_ex_init draft_gen_ex_init by simp
qed

text \<open>
  C7. When the card table has one row per \<open>idx\<close>, looking a name of the stored vocabulary
  up and looking the resulting index up again gives the name back. The stored vocabulary
  is the table sorted by \<open>idx\<close>, without its first five rows and renumbered when basic
  lands are excluded.
\<close>

theorem card_index_roundtrip:
  assumes "distinct (map fst cs)" and "cards g = init_cards cs excl"
    and "n \<in> snd ` set (cards g)"
  shows "bnd (card_name_to_idx g n e1) (\<lambda>i. card_idx_to_name g i e2) = Inr n"
proof -
  have "distinct (map fst (cards g))"
    using init_cards_distinct[OF assms(1)] assms(2) by simp
  then show ?thesis using assms(3) by (rule roundtrip_state)
qed

theorem card_index_roundtrip_witness:
  "distinct (map fst cards7_ex) \<and> cards deck7_gen_ex = init_cards cards7_ex True \<and>
   ''shock'' \<in> snd ` set (cards deck7_gen_ex) \<and>
   card_name_to_idx deck7_gen_ex ''shock'' True = Inr 1 \<and>
   bnd (card_name_to_idx deck7_gen_ex ''shock'' True)
       (\<lambda>i. card_idx_to_name deck7_gen_ex i True) = Inr ''shock''"
proof -
  have c: "cards deck7_gen_ex = init_cards cards7_ex True"
    using DeckGenerator_init_fields(1)[OF deck7_gen_ex_init] .
  have i: "init_cards cards7_ex True = [(0, ''bear''), (1, ''shock'')]" by code_simp
  have d: "distinct (map fst cards7_ex)" by (simp add: cards7_ex_def)
  have m: "''shock'' \<in> snd ` set (cards deck7_gen_ex)" unfolding c i by simp
  have k: "card_name_to_idx deck7_gen_ex ''shock'' True = Inr 1"
    by (simp add: card_name_to_idx_def c i)
  from card_index_roundtrip[OF d c m, of True True] show ?thesis using d c m k by simp
qed

text \<open>
  C10. The second argument of the two lookups changes nothing: both values give the same
  result, and a generator constructed with basic lands excluded answers from the
  vocabulary without them whatever that argument is.
\<close>

theorem exclude_basics_argument_unused:
  "card_name_to_idx g n e1 = card_name_to_idx g n e2 \<and>
   card_idx_to_name g i e1 = card_idx_to_name g i e2 \<and>
   (DeckGenerator_init data cs bs shuf fit excl store rnd = Inr dg \<longrightarrow>
      card_name_to_idx dg n e1 =
        (case filter (\<lambda>(j, m). m = n) (init_cards cs excl) of
           [] \<Rightarrow> Inl IndexError | (j, m) # _ \<Rightarrow> Inr j) \<and>
      card_idx_to_name dg i e1 =
        (case filter (\<lambda>(j, m). j = i) (init_cards cs excl) of
           [] \<Rightarrow> Inl IndexError | (j, m) # _ \<Rightarrow> Inr m)) \<and>
   (DraftGenerator_init data cs bs shuf fit excl store rnd rnd2 = Inr fg \<longrightarrow>
      card_name_to_idx fg n e1 =
        (case filter (\<lambda>(j, m). m = n) (init_cards cs excl) of
           [] \<Rightarrow> Inl IndexError | (j, m) # _ \<Rightarrow> Inr j) \<and>
      card_idx_to_name fg i e1 =
        (case filter (\<lambda>(j, m). j = i) (init_cards cs excl) of
           [] \<Rightarrow> Inl IndexError | (j, m) # _ \<Rightarrow> Inr m))"
proof (intro conjI impI)
  show "card_name_to_idx g n e1 = card_name_to_idx g n e2"
    by (simp add: card_name_to_idx_def)
  show "card_idx_to_name g i e1 = card_idx_to_name g i e2"
    by (simp add: card_idx_to_name_def)
next
  assume a: "DeckGenerator_init data cs bs shuf fit excl store rnd = Inr dg"
  show "card_name_to_idx dg n e1 =
        (case filter (\<lambda>(j, m). m = n) (init_cards cs excl) of
           [] \<Rightarrow> Inl IndexError | (j, m) # _ \<Rightarrow> Inr j)"
    by (simp add: card_name_to_idx_def DeckGenerator_init_fields(1)[OF a])
  show "card_idx_to_name dg i e1 =
        (case filter (\<lambda>(j, m). j = i) (init_cards cs excl) of
           [] \<Rightarrow> Inl IndexError | (j, m) # _ \<Rightarrow> Inr m)"
    by (simp add: card_idx_to_name_def DeckGenerator_init_fields(1)[OF a])
next
  assume a: "DraftGenerator_init data cs bs shuf fit excl store rnd rnd2 = Inr fg"
  have c: "cards fg = init_cards cs excl" using DraftGenerator_init_fields[OF a] by blast
  show "card_name_to_idx fg n e1 =
        (case filter (\<lambda>(j, m). m = n) (init_cards cs excl) of
           [] \<Rightarrow> Inl IndexError | (j, m) # _ \<Rightarrow> Inr j)"
    by (simp add: card_name_to_idx_def c)
  show "card_idx_to_name fg i e1 =
        (case filter (\<lambda>(j, m). j = i) (init_cards cs excl) of
           [] \<Rightarrow> Inl IndexError | (j, m) # _ \<Rightarrow> Inr m)"
    by (simp add: card_idx_to_name_def c)
qed

theorem exclude_basics_argument_unused_witness:
  "DeckGenerator_init deck_data_ex cards7_ex 2 False True True False rnd_ex = Inr deck7_gen_ex \<and>
   card_name_to_idx deck7_gen_ex ''plains'' False = Inl IndexError \<and>
   card_name_to_idx deck7_gen_ex ''plains'' True = Inl IndexError \<and>
   card_idx_to_name deck7_gen_ex 0 False = Inr ''bear'' \<and>
   card_idx_to_name deck7_gen_ex 0 True = Inr ''bear''"
proof -
  have i: "init_cards cards7_ex True = [(0, ''bear''), (1, ''shock'')]" by code_simp
  from exclude_basics_argument_unused[of deck7_gen_ex "''plains''" False True 0 deck_data_ex
         cards7_ex 2 False True True False rnd_ex deck7_gen_ex undefined undefined]
  show ?thesis using deck7_gen_ex_init unfolding i by auto
qed

text \<open>
  C9. \<^verbatim>\<open>DeckGenerator.generate_data\<close> reads \<^verbatim>\<open>self.deck_basics\<close> on every call. The
  attribute exists exactly when the generator was constructed with \<^verbatim>\<open>store_basics=True\<close>;
  a deck generator constructed without it answers every batch number with AttributeError.
\<close>

theorem deck_batch_needs_store_basics:
  "(DeckGenerator_init data cs bs shuf fit excl store rnd = Inr g \<longrightarrow>
      (attrs g ''deck_basics'' \<noteq> None) = store) \<and>
   (DeckGenerator_init data cs bs shuf fit excl False rnd = Inr g' \<longrightarrow>
      getitem (deck_generate_data rd u1 u2 u3) g' b = Inl AttributeError)"
proof (intro conjI impI)
  assume a: "DeckGenerator_init data cs bs shuf fit excl store rnd = Inr g"
  show "(attrs g ''deck_basics'' \<noteq> None) = store"
    using DeckGenerator_init_fields(11)[OF a] by simp
next
  assume a: "DeckGenerator_init data cs bs shuf fit excl False rnd = Inr g'"
  show "getitem (deck_generate_data rd u1 u2 u3) g' b = Inl AttributeError"
    by (simp add: getitem_def deck_generate_data_no_basics[OF a])
qed

theorem deck_batch_needs_store_basics_witness:
  "DeckGenerator_init deck_data_ex cards7_ex 2 False True True False rnd_ex = Inr deck7_gen_ex \<and>
   attrs deck7_gen_ex ''deck_basics'' = None \<and>
   getitem (deck_generate_data id half half half) deck7_gen_ex 0 = Inl AttributeError \<and>
   DeckGenerator_init deck_data_ex cards3_ex 2 True True False True rnd_ex = Inr deck_gen_ex \<and>
   attrs deck_gen_ex ''deck_basics'' \<noteq> None"
proof -
  from deck_batch_needs_store_basics[of deck_data_ex cards7_ex 2 False True True False rnd_ex
         deck7_gen_ex deck7_gen_ex id half half half 0]
  have 1: "attrs deck7_gen_ex ''deck_basics'' = None \<and>
           getitem (deck_generate_data id half half half) deck7_gen_ex 0 = Inl AttributeError"
    using deck7_gen_ex_init by simp
  from deck_batch_needs_store_basics[of deck_data_ex cards3_ex 2 True True False True rnd_ex
         deck_gen_ex undefined id half half half 0]
  have 2: "attrs deck_gen_ex ''deck_basics'' \<noteq> None"
    using deck_gen_ex_init by simp
  show ?thesis using 1 2 deck7_gen_ex_init deck_gen_ex_init by simp
qed

text \<open>
  C8. In a matrix with at least one column, a row whose entries sum to zero is sampled
  at index 0, whatever the uniform draw of the row is.
\<close>

theorem zero_row_samples_index_0:
  assumes "0 < ncols mtx" and "i < length (mrows mtx)" and "sum_list (mrows mtx ! i) = 0"
  shows "\<exists>res. get_vectorized_sample rd u mtx = Inr res \<and> length res = length (mrows mtx) \<and>
               res ! i = 0"
  using assms
  by (simp add: get_vectorized_sample_ok nth_enumerate_eq sample_row_zero)

theorem zero_row_samples_index_0_witness:
  "get_vectorized_sample id half \<lparr>ncols = 3, mrows = [[3, 0, 1], [0, 0, 0]]\<rparr> = Inr [0, 0] \<and>
   get_vectorized_sample id half \<lparr>ncols = 2, mrows = [[1, 1], [- 1, 1]]\<rparr> = Inr [1, 0]"
proof -
  have e: "get_vectorized_sample id half \<lparr>ncols = 3, mrows = [[3, 0, 1], [0, 0, 0]]\<rparr> = Inr [0, 0]"
    "get_vectorized_sample id half \<lparr>ncols = 2, mrows = [[1, 1], [- 1, 1]]\<rparr> = Inr [1, 0]"
    by code_simp+
  from zero_row_samples_index_0[of "\<lparr>ncols = 3, mrows = [[3, 0, 1], [0, 0, 0]]\<rparr>" 1 id half]
  obtain res where "get_vectorized_sample id half \<lparr>ncols = 3, mrows = [[3, 0, 1], [0, 0, 0]]\<rparr> = Inr res"
    "res ! 1 = 0"
    by auto
  then show ?thesis using e by simp
qed



text \<open>
  C2 (as amended). For a draft generator constructed from a well-formed, non-empty table,
  \<open>t\<close> is fixed at construction as one more than the largest position. A batch of \<open>k\<close>
  valid draft indices whose drafts all have exactly \<open>t\<close> rows is produced, its combined
  feature tensor has shape \<open>(k, t, 2 * c)\<close>, and its pick labels and positions have shape
  \<open>(k, t, 1)\<close>, where \<open>c\<close> is the number of \<^verbatim>\<open>pack_card\<close> columns the constructor
  retained, provided the \<^verbatim>\<open>pool\<close> frame has \<open>c\<close> columns as well. The width is
  \<open>2 * n_cards\<close> when \<open>c = n_cards\<close>.
\<close>

theorem draft_batch_shapes:
  assumes "wf_frame data" and "rows data \<noteq> []"
    and "DraftGenerator_init data cs bs shuf fit excl store rnd1 rnd2 = Inr g"
    and "draft_id data = Some ids" and "get_col data ''position'' = Inr pos"
    and "real t = series_max pos + 1"
    and "\<forall>i \<in> set is. i < length (draft_ids g) \<and>
                       length (filter (\<lambda>l. l = draft_ids g ! i) ids) = t"
    and "frames g ''pack_card'' = Some pc" and "frames g ''pool'' = Some pl"
    and "length (fcolumns pl) = length (fcolumns pc)"
  shows "t_len g = Fin (real t) \<and>
         fcolumns pc = filter (is_feature_col ''pack_card'' (if excl then basics else []))
                         (columns (drop_col ''position'' data)) \<and>
         (\<exists>feats poss picks wout.
            draft_generate_data rd g is = Inr ((feats, poss), picks, wout) \<and>
            has_shape3 feats (length is) t (2 * length (fcolumns pc)) \<and>
            (length (fcolumns pc) = n_cards g \<longrightarrow>
               has_shape3 feats (length is) t (2 * n_cards g)) \<and>
            has_shape3 picks (length is) t 1 \<and> has_shape3 poss (length is) t 1)"
proof -
  let ?d = "drop_col ''position'' data"
  let ?ex = "if excl then basics else []"
  from DraftGenerator_init_fields[OF assms(3)] assms(4,5) obtain pk pn kn where
    c: "get_col ?d ''pick'' = Inr pk" "get_col ?d ''pack_number'' = Inr pn"
       "get_col ?d ''pick_number'' = Inr kn"
    and f: "draft_ids g = unique ids" "n_cards g = length (init_cards cs excl)"
       "t_len g = (if pos = [] then NaN else Fin (series_max pos + 1))"
       "frames g ''pack_card'' = Some \<lparr>flabels = ids,
          fcolumns = filter (is_feature_col ''pack_card'' ?ex) (columns ?d),
          fvalues = select_rows (is_feature_col ''pack_card'' ?ex) ?d\<rparr>"
       "frames g ''pool'' = Some \<lparr>flabels = ids,
          fcolumns = filter (is_feature_col ''pool'' ?ex) (columns ?d),
          fvalues = select_rows (is_feature_col ''pool'' ?ex) ?d\<rparr>"
       "pick g = (ids, pk)"
       "position g = (ids, map (\<lambda>(a, b). a * (series_max kn + 1) + b) (zip pn kn))"
       "weights g = (case get_col ?d ''ml_weights'' of Inl _ \<Rightarrow> None | Inr w \<Rightarrow> Some w)"
    by auto
  have wr: "\<forall>r \<in> set (rows data). length r = length (columns data)"
    and li: "length ids = length (rows data)"
    using assms(1,4) by (simp_all add: wf_frame_def list_all_iff)
  have wd: "\<forall>r \<in> set (rows ?d). length r = length (columns ?d)" by (rule drop_col_rows[OF wr])
  have pcv: "pc = \<lparr>flabels = ids,
          fcolumns = filter (is_feature_col ''pack_card'' ?ex) (columns ?d),
          fvalues = select_rows (is_feature_col ''pack_card'' ?ex) ?d\<rparr>"
    and plv: "pl = \<lparr>flabels = ids,
          fcolumns = filter (is_feature_col ''pool'' ?ex) (columns ?d),
          fvalues = select_rows (is_feature_col ''pool'' ?ex) ?d\<rparr>"
    using assms(8,9) f(4,5) by simp_all
  have "pos \<noteq> []" using get_col_length[OF assms(5)] assms(2) by auto
  then have t: "t_len g = Fin (real t)" using f(3) assms(6) by simp
  have idx: "\<forall>i \<in> set is. i < length (draft_ids g)"
    and cnt: "\<forall>i \<in> set is. length (filter (\<lambda>l. l = draft_ids g ! i) ids) = t"
    using assms(7) by simp_all
  have sub: "set (draft_ids g) \<subseteq> set ids" by (simp add: f(1) unique_set)
  have pc2: "flabels pc = ids" "length (fvalues pc) = length ids"
    "\<forall>r \<in> set (fvalues pc). length r = length (fcolumns pc)"
    using select_rows_row_length[OF wd, of "is_feature_col ''pack_card'' ?ex"]
    by (simp_all add: pcv li)
  have pl2: "flabels pl = ids" "length (fvalues pl) = length ids"
    "\<forall>r \<in> set (fvalues pl). length r = length (fcolumns pc)"
    using select_rows_row_length[OF wd, of "is_feature_col ''pool'' ?ex"] assms(10)
    by (simp_all add: plv li)
  have pk2: "fst (pick g) = ids" "length (snd (pick g)) = length ids"
    using get_col_length[OF c(1)] by (simp_all add: f(6) li)
  have ps2: "fst (position g) = ids" "length (snd (position g)) = length ids"
    using get_col_length[OF c(2)] get_col_length[OF c(3)] by (simp_all add: f(7) li)
  have w: "case weights g of None \<Rightarrow> True | Some v \<Rightarrow> length (draft_ids g) \<le> length v"
  proof (cases "get_col ?d ''ml_weights''")
    case (Inl e) then show ?thesis by (simp add: f(8))
  next
    case (Inr v)
    have "length (unique ids) \<le> length v"
      using get_col_length[OF Inr] length_unique_le[of ids] li by simp
    then show ?thesis by (simp add: f(8) Inr f(1))
  qed
  from draft_generate_data_shapes[OF idx sub cnt assms(8) pc2 assms(9) pl2 pk2 ps2 t w]
  obtain feats poss picks wout where
    r: "draft_generate_data rd g is = Inr ((feats, poss), picks, wout)"
       "has_shape3 feats (length is) t (2 * length (fcolumns pc))"
       "has_shape3 picks (length is) t 1" "has_shape3 poss (length is) t 1"
    by blast
  have "length (fcolumns pc) = n_cards g \<longrightarrow> has_shape3 feats (length is) t (2 * n_cards g)"
    using r(2) by auto
  then show ?thesis using t pcv r by auto
qed

theorem draft_batch_shapes_witness:
  "wf_frame draft_data_ex \<and> rows draft_data_ex \<noteq> [] \<and>
   DraftGenerator_init draft_data_ex cards_ex 1 False True False False rnd_ex rnd_ex
     = Inr draft_gen_ex \<and>
   t_len draft_gen_ex = Fin 2 \<and>
   draft_generate_data id draft_gen_ex [0]
     = Inr (([[[1, 0], [1, 1]]], [[[0], [1]]]), [[[0], [0]]], Some [Fin 1]) \<and>
   has_shape3 [[[1, 0], [1, 1 :: real]]] 1 2 2 \<and>
   has_shape3 [[[0], [0 :: int]]] 1 2 1 \<and> has_shape3 [[[0], [1 :: int]]] 1 2 1"
proof -
  have h: "wf_frame draft_data_ex" "rows draft_data_ex \<noteq> []"
    "draft_id draft_data_ex = Some [''d1'', ''d1'']"
    "get_col draft_data_ex ''position'' = Inr [0, 1]"
    by (simp_all add: wf_frame_def draft_data_ex_def get_col_def)
  have t: "real 2 = series_max [0, 1] + 1" by (simp add: series_max_def)
  have e: "draft_ids draft_gen_ex = [''d1'']"
    "frames draft_gen_ex ''pack_card'' = Some \<lparr>flabels = [''d1'', ''d1''],
        fcolumns = [''pack_card_shock''], fvalues = [[1], [1]]\<rparr>"
    "frames draft_gen_ex ''pool'' = Some \<lparr>flabels = [''d1'', ''d1''],
        fcolumns = [''pool_shock''], fvalues = [[0], [1]]\<rparr>"
    "draft_generate_data id draft_gen_ex [0]
       = Inr (([[[1, 0], [1, 1]]], [[[0], [1]]]), [[[0], [0]]], Some [Fin 1])"
    by code_simp+
  have i: "\<forall>i \<in> set [0]. i < length (draft_ids draft_gen_ex) \<and>
             length (filter (\<lambda>l. l = draft_ids draft_gen_ex ! i) [''d1'', ''d1'']) = 2"
    by (simp add: e(1))
  from draft_batch_shapes[OF h(1,2) draft_gen_ex_init h(3,4) t i e(2,3), where rd = id]
  have "t_len draft_gen_ex = Fin 2 \<and>
        has_shape3 [[[1, 0], [1, 1 :: real]]] 1 2 2 \<and>
        has_shape3 [[[0], [0 :: int]]] 1 2 1 \<and> has_shape3 [[[0], [1 :: int]]] 1 2 1"
    by (auto simp: e(4))
  then show ?thesis using h(1,2) draft_gen_ex_init e(4) by simp
qed

text \<open>
  C2 as stated fails: the card table of the example has two cards and the table one
  \<^verbatim>\<open>pack_card\<close> column, so the draft of two picks gives features of shape
  \<open>(1, 2, 2)\<close>, not \<open>(1, 2, 2 * n_cards) = (1, 2, 4)\<close>.
\<close>

theorem draft_batch_shapes_counterexample:
  "n_cards draft_gen_ex = 2 \<and> t_len draft_gen_ex = Fin 2 \<and>
   draft_generate_data id draft_gen_ex [0]
     = Inr (([[[1, 0], [1, 1]]], [[[0], [1]]]), [[[0], [0]]], Some [Fin 1]) \<and>
   \<not> has_shape3 [[[1, 0], [1, 1 :: real]]] 1 2 (2 * n_cards draft_gen_ex)"
proof -
  have e: "n_cards draft_gen_ex = 2" "t_len draft_gen_ex = Fin 2"
    "draft_generate_data id draft_gen_ex [0]
       = Inr (([[[1, 0], [1, 1]]], [[[0], [1]]]), [[[0], [0]]], Some [Fin 1])"
    by code_simp+
  show ?thesis unfolding e by (simp add: e has_shape3_def)
qed

text \<open>
  C6. A batch that a constructed deck or draft generator returns in fit mode for a batch
  number below \<^verbatim>\<open>__len__\<close> carries no weights when the table has no
  \<^verbatim>\<open>ml_weights\<close> column; when it has one with positive entries, the weights are the
  column's values at the batch's indices, each divided by their sum, and they add up to 1.
  Finite arithmetic is exact in the model.
\<close>

theorem batch_weights_sum_to_one:
  "(DeckGenerator_init data cs bs shuf fit excl store rnd = Inr g \<and>
    len_gen g = Inr n \<and> 0 \<le> b \<and> b < n \<and>
    getitem (deck_generate_data id u1 u2 u3) g b = Inr (Fit X y w) \<longrightarrow>
      (case get_col data ''ml_weights'' of
         Inl _ \<Rightarrow> w = None
       | Inr v \<Rightarrow> list_all (\<lambda>x. 0 < x) v \<longrightarrow>
           (\<exists>vs. w = Some (map Fin vs) \<and>
                 vs = map (\<lambda>i. v ! i / sum_list (map (\<lambda>j. v ! j) (batch_indices g b)))
                        (batch_indices g b) \<and>
                 sum_list vs = 1))) \<and>
   (DraftGenerator_init data' cs' bs' shuf' fit' excl' store' rnd1 rnd2 = Inr fg \<and>
    len_gen fg = Inr n' \<and> 0 \<le> b' \<and> b' < n' \<and>
    getitem (draft_generate_data id) fg b' = Inr (Fit X' y' w') \<longrightarrow>
      (case get_col (drop_col ''position'' data') ''ml_weights'' of
         Inl _ \<Rightarrow> w' = None
       | Inr v \<Rightarrow> list_all (\<lambda>x. 0 < x) v \<longrightarrow>
           (\<exists>vs. w' = Some (map Fin vs) \<and>
                 vs = map (\<lambda>i. v ! i / sum_list (map (\<lambda>j. v ! j) (batch_indices fg b')))
                        (batch_indices fg b') \<and>
                 sum_list vs = 1)))"
proof (intro conjI impI)
  assume a: "DeckGenerator_init data cs bs shuf fit excl store rnd = Inr g \<and>
    len_gen g = Inr n \<and> 0 \<le> b \<and> b < n \<and>
    getitem (deck_generate_data id u1 u2 u3) g b = Inr (Fit X y w)"
  then have i: "DeckGenerator_init data cs bs shuf fit excl store rnd = Inr g" by simp
  have ne: "batch_indices g b \<noteq> []"
    using valid_batch_nonempty[of g n b] a Deck_indices_length[OF i] by simp
  have "deck_generate_data id u1 u2 u3 g (batch_indices g b) = Inr (X, y, w)"
    by (rule getitem_Fit) (use a in blast)
  then have bw: "batch_weights id (weights g) (batch_indices g b) = Inr w"
    by (rule deck_generate_data_weights)
  show "case get_col data ''ml_weights'' of
         Inl _ \<Rightarrow> w = None
       | Inr v \<Rightarrow> list_all (\<lambda>x. 0 < x) v \<longrightarrow>
           (\<exists>vs. w = Some (map Fin vs) \<and>
                 vs = map (\<lambda>i. v ! i / sum_list (map (\<lambda>j. v ! j) (batch_indices g b)))
                        (batch_indices g b) \<and>
                 sum_list vs = 1)"
  proof (cases "get_col data ''ml_weights''")
    case (Inl e)
    then have "weights g = None" using DeckGenerator_init_fields(8)[OF i] by simp
    then show ?thesis using bw Inl batch_weights_none by simp
  next
    case (Inr v)
    then have "weights g = Some v" using DeckGenerator_init_fields(8)[OF i] by simp
    then have "batch_weights id (Some v) (batch_indices g b) = Inr w" using bw by simp
    from batch_weights_sum[OF this ne] show ?thesis using Inr by (simp add: list_all_iff)
  qed
next
  assume a: "DraftGenerator_init data' cs' bs' shuf' fit' excl' store' rnd1 rnd2 = Inr fg \<and>
    len_gen fg = Inr n' \<and> 0 \<le> b' \<and> b' < n' \<and>
    getitem (draft_generate_data id) fg b' = Inr (Fit X' y' w')"
  then have i: "DraftGenerator_init data' cs' bs' shuf' fit' excl' store' rnd1 rnd2 = Inr fg" by simp
  have ne: "batch_indices fg b' \<noteq> []"
    using valid_batch_nonempty[of fg n' b'] a Draft_indices_length[OF i] by simp
  have "draft_generate_data id fg (batch_indices fg b') = Inr (X', y', w')"
    by (rule getitem_Fit) (use a in blast)
  then have bw: "batch_weights id (weights fg) (batch_indices fg b') = Inr w'"
    by (rule draft_generate_data_weights)
  have wf: "weights fg = (case get_col (drop_col ''position'' data') ''ml_weights'' of
                           Inl _ \<Rightarrow> None | Inr w \<Rightarrow> Some w)"
    using DraftGenerator_init_fields[OF i] by blast
  show "case get_col (drop_col ''position'' data') ''ml_weights'' of
         Inl _ \<Rightarrow> w' = None
       | Inr v \<Rightarrow> list_all (\<lambda>x. 0 < x) v \<longrightarrow>
           (\<exists>vs. w' = Some (map Fin vs) \<and>
                 vs = map (\<lambda>i. v ! i / sum_list (map (\<lambda>j. v ! j) (batch_indices fg b')))
                        (batch_indices fg b') \<and>
                 sum_list vs = 1)"
  proof (cases "get_col (drop_col ''position'' data') ''ml_weights''")
    case (Inl e)
    then have "weights fg = None" using wf by simp
    then show ?thesis using bw Inl batch_weights_none by simp
  next
    case (Inr v)
    then have "weights fg = Some v" using wf by simp
    then have "batch_weights id (Some v) (batch_indices fg b') = Inr w'" using bw by simp
    from batch_weights_sum[OF this ne] show ?thesis using Inr by (simp add: list_all_iff)
  qed
qed

theorem batch_weights_sum_to_one_witness:
  "DeckGenerator_init deck_data_ex cards3_ex 2 True True False True rnd_ex = Inr deck_gen_ex \<and>
   len_gen deck_gen_ex = Inr 2 \<and>
   get_col deck_data_ex ''ml_weights'' = Inr [1, 3, 1, 2, 1] \<and>
   batch_indices deck_gen_ex 1 = [3, 4] \<and>
   getitem (deck_generate_data id half half half) deck_gen_ex 1
     = Inr (Fit (\<lparr>ncols = 3, mrows = [[3, 1, 2], [2, 2, 2]]\<rparr>, [2, 1], [0, 2], [1, 2])
                (\<lparr>ncols = 0, mrows = [[], []]\<rparr>, \<lparr>ncols = 3, mrows = [[2, 0, 2], [1, 1, 1]]\<rparr>)
                (Some [Fin (2 / 3), Fin (1 / 3)])) \<and>
   sum_list [2 / 3, 1 / 3 :: real] = 1 \<and>
   DraftGenerator_init draft_data_ex cards_ex 1 False True False False rnd_ex rnd_ex
     = Inr draft_gen_ex \<and>
   len_gen draft_gen_ex = Inr 1 \<and>
   getitem (draft_generate_data id) draft_gen_ex 0
     = Inr (Fit ([[[1, 0], [1, 1]]], [[[0], [1]]]) [[[0], [0]]] (Some [Fin 1]))"
proof -
  have e: "len_gen deck_gen_ex = Inr 2"
    "get_col deck_data_ex ''ml_weights'' = Inr [1, 3, 1, 2, 1]"
    "batch_indices deck_gen_ex 1 = [3, 4]"
    "getitem (deck_generate_data id half half half) deck_gen_ex 1
     = Inr (Fit (\<lparr>ncols = 3, mrows = [[3, 1, 2], [2, 2, 2]]\<rparr>, [2, 1], [0, 2], [1, 2])
                (\<lparr>ncols = 0, mrows = [[], []]\<rparr>, \<lparr>ncols = 3, mrows = [[2, 0, 2], [1, 1, 1]]\<rparr>)
                (Some [Fin (2 / 3), Fin (1 / 3)]))"
    "len_gen draft_gen_ex = Inr 1"
    "getitem (draft_generate_data id) draft_gen_ex 0
     = Inr (Fit ([[[1, 0], [1, 1]]], [[[0], [1]]]) [[[0], [0]]] (Some [Fin 1]))"
    by code_simp+
  have p: "list_all (\<lambda>x. 0 < x) [1, 3, 1, 2, 1 :: real]" by simp
  have prem: "DeckGenerator_init deck_data_ex cards3_ex 2 True True False True rnd_ex
      = Inr deck_gen_ex \<and>
    len_gen deck_gen_ex = Inr 2 \<and> (0 :: int) \<le> 1 \<and> (1 :: int) < 2 \<and>
    getitem (deck_generate_data id half half half) deck_gen_ex 1
     = Inr (Fit (\<lparr>ncols = 3, mrows = [[3, 1, 2], [2, 2, 2]]\<rparr>, [2, 1], [0, 2], [1, 2])
                (\<lparr>ncols = 0, mrows = [[], []]\<rparr>, \<lparr>ncols = 3, mrows = [[2, 0, 2], [1, 1, 1]]\<rparr>)
                (Some [Fin (2 / 3), Fin (1 / 3)]))"
    using e(1,4) deck_gen_ex_init by simp
  from conjunct1[OF batch_weights_sum_to_one[of deck_data_ex cards3_ex 2 True True False True
      rnd_ex deck_gen_ex 2 1 half half half
      "(\<lparr>ncols = 3, mrows = [[3, 1, 2], [2, 2, 2]]\<rparr>, [2, 1], [0, 2], [1, 2])"
      "(\<lparr>ncols = 0, mrows = [[], []]\<rparr>, \<lparr>ncols = 3, mrows = [[2, 0, 2], [1, 1, 1]]\<rparr>)"
      "Some [Fin (2 / 3), Fin (1 / 3)]"], THEN mp, OF prem]
  have "list_all (\<lambda>x. 0 < x) [1, 3, 1, 2, 1 :: real] \<longrightarrow>
        (\<exists>vs. Some [Fin (2 / 3), Fin (1 / 3)] = Some (map Fin vs) \<and>
              vs = map (\<lambda>i. [1, 3, 1, 2, 1] ! i /
                         sum_list (map (\<lambda>j. [1, 3, 1, 2, 1] ! j) (batch_indices deck_gen_ex 1)))
                     (batch_indices deck_gen_ex 1) \<and>
              sum_list vs = (1 :: real))"
    unfolding e(2) by simp
  from mp[OF this p] obtain vs where "Some [Fin (2 / 3), Fin (1 / 3)] = Some (map Fin vs)"
      "sum_list vs = (1 :: real)"
    by (elim exE conjE) (rule that)
  then have "sum_list [2 / 3, 1 / 3 :: real] = 1" by auto
  then show ?thesis using e deck_gen_ex_init draft_gen_ex_init by simp
qed




end
